theory Spec2Isabelle
  imports Main
begin

section \<open>JavaScript numbers and strings as the handlers use them\<close>

text \<open>
  Strings are lists of code units; \<open>char\<close> covers the code units below 256. The only
  numbers the application computes are results of \<open>parseInt\<close>: NaN, the two infinities
  and integer-valued doubles. An integer-valued double is kept as the integer it denotes
  (the sign of zero is dropped: \<open>String(-0)\<close> is \<open>"0"\<close> and \<open>Number.isInteger(-0)\<close> holds).
\<close>

datatype jsnum = NaN | Fin int | PosInf | NegInf

function bitlen :: "int \<Rightarrow> nat" where
  "bitlen n = (if n \<le> 0 then 0 else Suc (bitlen (n div 2)))"
  by pat_completeness auto
termination
  by (relation "measure nat") auto

declare bitlen.simps [simp del]

text \<open>
  Rounding of a non-negative mathematical integer (the callers pass no other) to the nearest double, ties to even
  (53 significant bits). \<open>None\<close> is the overflow to Infinity.
\<close>

definition round_f64 :: "int \<Rightarrow> int option" where
  "round_f64 m =
     (if m < 2 ^ 53 then Some m
      else let sh = bitlen m - 53;
               q = m div 2 ^ sh;
               r = m mod 2 ^ sh;
               half = 2 ^ (sh - 1);
               q' = (if half < r \<or> (r = half \<and> odd q) then q + 1 else q);
               v = q' * 2 ^ sh
           in if 2 ^ 1024 \<le> v then None else Some v)"

definition to_number :: "bool \<Rightarrow> int \<Rightarrow> jsnum" where
  "to_number neg m =
     (case round_f64 m of
        None \<Rightarrow> if neg then NegInf else PosInf
      | Some v \<Rightarrow> Fin (if neg then - v else v))"

text \<open>White space that \<open>parseInt\<close> skips: TAB, LF, VT, FF, CR, SP, NBSP.\<close>

definition is_js_space :: "char \<Rightarrow> bool" where
  "is_js_space c = ((of_char c :: int) \<in> set [9, 10, 11, 12, 13, 32, 160])"

definition digit_of :: "char \<Rightarrow> int option" where
  "digit_of c =
     (let n = (of_char c :: int)
      in if 48 \<le> n \<and> n \<le> 57 then Some (n - 48)
         else if 97 \<le> n \<and> n \<le> 122 then Some (n - 87)
         else if 65 \<le> n \<and> n \<le> 90 then Some (n - 55)
         else None)"

definition is_digit :: "int \<Rightarrow> char \<Rightarrow> bool" where
  "is_digit R c = (case digit_of c of None \<Rightarrow> False | Some v \<Rightarrow> v < R)"

definition digit_val :: "char \<Rightarrow> int" where
  "digit_val c = (case digit_of c of None \<Rightarrow> 0 | Some v \<Rightarrow> v)"

definition mathInt :: "int \<Rightarrow> string \<Rightarrow> int" where
  "mathInt R Z = foldl (\<lambda>a c. a * R + digit_val c) 0 Z"

text \<open>
  \<open>parseInt(string)\<close> with no radix argument: skip leading white space, take a sign,
  switch to radix 16 after \<open>0x\<close> or \<open>0X\<close>, read the longest prefix of digits, ignore the
  rest of the string; NaN when there is no digit.
\<close>

definition parseInt :: "string \<Rightarrow> jsnum" where
  "parseInt inputString =
     (let S = dropWhile is_js_space inputString;
          neg = (case S of [] \<Rightarrow> False | c # _ \<Rightarrow> c = CHR ''-'');
          S1 = (case S of [] \<Rightarrow> []
                | c # cs \<Rightarrow> if c = CHR ''+'' \<or> c = CHR ''-'' then cs else S);
          hex = (take 2 S1 = ''0x'' \<or> take 2 S1 = ''0X'');
          R = (if hex then 16 else 10);
          S2 = (if hex then drop 2 S1 else S1);
          Z = takeWhile (is_digit R) S2
      in if Z = [] then NaN else to_number neg (mathInt R Z))"

function digits_of :: "int \<Rightarrow> string" where
  "digits_of n =
     (if n < 10 then [char_of (48 + n)]
      else digits_of (n div 10) @ [char_of (48 + n mod 10)])"
  by pat_completeness auto
termination
  by (relation "measure nat") auto

declare digits_of.simps [simp del]

text \<open>
  \<open>Number::toString\<close> prints the decimal with the fewest significant digits that still
  rounds to the number. \<open>shortest x e\<close> looks for it among the multiples of \<open>10 ^ e\<close>
  next to \<open>x\<close>, fewest digits first.
\<close>

fun shortest :: "int \<Rightarrow> nat \<Rightarrow> int" where
  "shortest x 0 = x"
| "shortest x (Suc e) =
     (let p = 10 ^ Suc e;
          lo = (x div p) * p;
          hi = lo + p;
          okl = (lo \<noteq> 0 \<and> round_f64 lo = Some x);
          okh = (round_f64 hi = Some x)
      in if okl \<and> okh then
           (if x - lo < hi - x \<or> (x - lo = hi - x \<and> even (x div p)) then lo else hi)
         else if okl then lo
         else if okh then hi
         else shortest x e)"

definition posToString :: "int \<Rightarrow> string" where
  "posToString x =
     (if x = 0 then ''0''
      else let v = shortest x (length (digits_of x) - 1);
               ds = digits_of v;
               n = length ds
           in if n \<le> 21 then ds
              else let sig = rev (dropWhile (\<lambda>c. c = CHR ''0'') (rev ds))
                   in (case sig of [] \<Rightarrow> [] | [d] \<Rightarrow> [d] | d # rest \<Rightarrow> d # ''.'' @ rest)
                      @ ''e+'' @ digits_of (int n - 1))"

definition numToString :: "jsnum \<Rightarrow> string" where
  "numToString x =
     (case x of
        NaN \<Rightarrow> ''NaN''
      | PosInf \<Rightarrow> ''Infinity''
      | NegInf \<Rightarrow> ''-Infinity''
      | Fin i \<Rightarrow> if i < 0 then ''-'' @ posToString (- i) else posToString i)"

definition isInteger :: "jsnum \<Rightarrow> bool" where
  "isInteger x = (case x of Fin _ \<Rightarrow> True | _ \<Rightarrow> False)"

text \<open>
  \<open>const validateId = (id) => Number.isInteger(parseInt(id))\<close>. Every caller passes the
  number it got from \<open>parseInt(req.params.id)\<close>; \<open>parseInt\<close> converts it back to a string
  first.
\<close>

definition validateId :: "jsnum \<Rightarrow> bool" where
  "validateId x = isInteger (parseInt (numToString x))"


section \<open>Tables, session and the persistence layer\<close>

text \<open>
  Modelled from the spec: the schema is not in the repository. The three tables and their
  columns are those of the specification's persisted schema, which are also the ones the
  SQL statements of the handlers name. An id is an integer; a row is kept with the values
  of its columns, and the title, the content and the status of a blog can be NULL (the
  admin edit form sends what it gets).
\<close>

record user =
  u_id :: int
  u_username :: string
  u_email :: string
  u_password :: string
  u_role :: string

record blog =
  b_id :: int
  b_user_id :: int
  b_title :: "string option"
  b_content :: "string option"
  b_status :: "string option"
  b_created_at :: int

record contact_message =
  m_id :: int
  m_name :: string
  m_email :: string
  m_message :: string
  m_created_at :: int

text \<open>
  \<open>req.session.user\<close>: the public routes store \<open>{id, username}\<close>, the admin login
  stores \<open>{id, username, email, role}\<close>; a key that was not stored is \<open>None\<close>.
\<close>

record identity =
  i_id :: int
  i_username :: string
  i_email :: "string option"
  i_role :: "string option"

record session =
  s_user :: "identity option"
  flash_error :: "string list"
  flash_success :: "string list"

text \<open>
  The database: the three tables, the generators of ids and of \<open>created_at\<close>, the
  statements issued so far (SQL text and parameters as sent, \<open>None\<close> for NULL), and the
  schedule of statements that the server rejects for a reason outside the tables (a lost
  connection, a constraint of the schema): \<open>Some m\<close> rejects the next statement with
  message \<open>m\<close>.
\<close>

record database =
  users :: "user list"
  blogs :: "blog list"
  contact_messages :: "contact_message list"
  user_seq :: int
  blog_seq :: int
  message_seq :: int
  clock :: int
  faults :: "string option list"
  issued :: "(string \<times> string option list) list"

text \<open>
  What the application takes from its collaborators and the repository does not contain:
  how the database reads an id parameter sent as text, bcryptjs, whether a user's
  blogs go with the user on deletion, and the default of \<open>blogs.status\<close>.
\<close>

record env =
  id_in :: "string \<Rightarrow> int option"
  bcrypt_hash :: "string \<Rightarrow> string"
  bcrypt_compare :: "string \<Rightarrow> string \<Rightarrow> bool"
  cascade :: bool
  status_default :: "string option"

record state =
  db :: database
  sess :: session

text \<open>\<open>pool.query(sql, params)\<close>: the promise resolves with the rows or rejects.\<close>

definition pool_query ::
  "string \<Rightarrow> string option list \<Rightarrow> (database \<Rightarrow> string + 'a \<times> database) \<Rightarrow>
   database \<Rightarrow> (string + 'a) \<times> database" where
  "pool_query sql params run d =
     (let d1 = d\<lparr>issued := issued d @ [(sql, params)]\<rparr>
      in case faults d1 of
           Some m # fs \<Rightarrow> (Inl m, d1\<lparr>faults := fs\<rparr>)
         | _ \<Rightarrow>
             (let d2 = d1\<lparr>faults := tl (faults d1)\<rparr>
              in case run d2 of
                   Inl m \<Rightarrow> (Inl m, d2)
                 | Inr (r, d3) \<Rightarrow> (Inr r, d3)))"

text \<open>
  An id that comes from the path of the request reaches the database as text. A text
  that the database cannot read as an id makes the statement fail.
\<close>

definition with_id :: "env \<Rightarrow> string \<Rightarrow> (int \<Rightarrow> 'a) \<Rightarrow> string + 'a" where
  "with_id e txt f =
     (case id_in e txt of
        None \<Rightarrow> Inl (''invalid input syntax for type integer: '' @ CHR 0x22 # txt @ [CHR 0x22])
      | Some k \<Rightarrow> Inr (f k))"

text \<open>
  An id that comes from the session is a number that the database returned earlier: it is
  sent as its text (that is what the log shows) and compared as the integer it is.
\<close>

definition num_text :: "int \<Rightarrow> string" where
  "num_text n = numToString (Fin n)"

text \<open>
  \<open>blogs JOIN users ON blogs.user_id = users.id\<close>, each row a blog with the username
  of its author; and \<open>ORDER BY ... DESC\<close>, where rows with equal keys come in the reverse
  of their table order (SQL leaves their order open).
\<close>

definition joined :: "database \<Rightarrow> (blog \<times> string) list" where
  "joined d =
     concat (map (\<lambda>b. map (\<lambda>u. (b, u_username u))
                          (filter (\<lambda>u. b_user_id b = u_id u) (users d))) (blogs d))"

definition newest_first :: "('a \<Rightarrow> int) \<Rightarrow> 'a list \<Rightarrow> 'a list" where
  "newest_first key xs = rev (sort_key key xs)"

definition q_home :: "database \<Rightarrow> (string + (blog \<times> string) list) \<times> database" where
  "q_home =
     pool_query ''SELECT blogs.*, users.username FROM blogs JOIN users ON blogs.user_id = users.id ORDER BY created_at DESC'' []
       (\<lambda>d. Inr (newest_first (\<lambda>r. b_created_at (fst r)) (joined d), d))"

definition q_user_taken :: "string \<Rightarrow> string \<Rightarrow> database \<Rightarrow> (string + int list) \<times> database" where
  "q_user_taken email username =
     pool_query ''SELECT id FROM users WHERE email=$1 OR username=$2'' [Some email, Some username]
       (\<lambda>d. Inr (map u_id (filter (\<lambda>u. u_email u = email \<or> u_username u = username) (users d)), d))"

text \<open>
  Modelled from the spec: the new row gets the next id and the role "user", the default
  that the specification's schema gives the column.
\<close>

definition q_insert_user ::
  "string \<Rightarrow> string \<Rightarrow> string \<Rightarrow> database \<Rightarrow> (string + (int \<times> string) list) \<times> database" where
  "q_insert_user username email hashed =
     pool_query ''INSERT INTO users (username, email, password) VALUES ($1, $2, $3) RETURNING id, username''
       [Some username, Some email, Some hashed]
       (\<lambda>d. Inr ([(user_seq d, username)],
                  d\<lparr>users := users d @
                        [\<lparr>u_id = user_seq d, u_username = username, u_email = email,
                          u_password = hashed, u_role = ''user''\<rparr>],
                    user_seq := user_seq d + 1\<rparr>))"

definition q_users_by_email :: "string \<Rightarrow> database \<Rightarrow> (string + user list) \<times> database" where
  "q_users_by_email email =
     pool_query ''SELECT * FROM users WHERE email=$1'' [Some email]
       (\<lambda>d. Inr (filter (\<lambda>u. u_email u = email) (users d), d))"

definition q_set_password_by_email ::
  "string \<Rightarrow> string \<Rightarrow> database \<Rightarrow> (string + unit) \<times> database" where
  "q_set_password_by_email hashed email =
     pool_query ''UPDATE users SET password=$1 WHERE email=$2'' [Some hashed, Some email]
       (\<lambda>d. Inr ((), d\<lparr>users := map (\<lambda>u. if u_email u = email then u\<lparr>u_password := hashed\<rparr> else u)
                                     (users d)\<rparr>))"

definition q_insert_contact ::
  "string \<Rightarrow> string \<Rightarrow> string \<Rightarrow> database \<Rightarrow> (string + unit) \<times> database" where
  "q_insert_contact name email message =
     pool_query ''INSERT INTO contact_messages (name, email, message) VALUES ($1, $2, $3)''
       [Some name, Some email, Some message]
       (\<lambda>d. Inr ((), d\<lparr>contact_messages := contact_messages d @
                          [\<lparr>m_id = message_seq d, m_name = name, m_email = email,
                            m_message = message, m_created_at = clock d\<rparr>],
                        message_seq := message_seq d + 1, clock := clock d + 1\<rparr>))"

definition q_blogs_of :: "int \<Rightarrow> database \<Rightarrow> (string + blog list) \<times> database" where
  "q_blogs_of uid =
     pool_query ''SELECT * FROM blogs WHERE user_id=$1 ORDER BY created_at DESC'' [Some (num_text uid)]
       (\<lambda>d. Inr (newest_first b_created_at (filter (\<lambda>b. b_user_id b = uid) (blogs d)), d))"

text \<open>
  Modelled from the spec: \<open>blogs.user_id\<close> is a foreign key to users, so the insert
  fails when the session's user is no longer in the table. \<open>created_at\<close> defaults to
  the time of the insert.
\<close>

definition q_insert_blog ::
  "env \<Rightarrow> int \<Rightarrow> string \<Rightarrow> string \<Rightarrow> database \<Rightarrow> (string + unit) \<times> database" where
  "q_insert_blog e uid title content =
     pool_query ''INSERT INTO blogs (user_id, title, content) VALUES ($1, $2, $3)''
       [Some (num_text uid), Some title, Some content]
       (\<lambda>d. if uid \<notin> set (map u_id (users d))
             then Inl ''insert or update on table blogs violates foreign key constraint''
             else Inr ((), d\<lparr>blogs := blogs d @
                               [\<lparr>b_id = blog_seq d, b_user_id = uid, b_title = Some title,
                                 b_content = Some content, b_status = status_default e,
                                 b_created_at = clock d\<rparr>],
                             blog_seq := blog_seq d + 1, clock := clock d + 1\<rparr>))"

definition q_view :: "env \<Rightarrow> string \<Rightarrow> database \<Rightarrow> (string + (blog \<times> string) list) \<times> database" where
  "q_view e idtxt =
     pool_query ''SELECT blogs.*, users.username FROM blogs JOIN users ON blogs.user_id = users.id WHERE blogs.id=$1''
       [Some idtxt]
       (\<lambda>d. with_id e idtxt (\<lambda>k. (filter (\<lambda>r. b_id (fst r) = k) (joined d), d)))"

definition q_own_blog :: "env \<Rightarrow> string \<Rightarrow> int \<Rightarrow> database \<Rightarrow> (string + blog list) \<times> database" where
  "q_own_blog e idtxt uid =
     pool_query ''SELECT * FROM blogs WHERE id=$1 AND user_id=$2'' [Some idtxt, Some (num_text uid)]
       (\<lambda>d. with_id e idtxt (\<lambda>k. (filter (\<lambda>b. b_id b = k \<and> b_user_id b = uid) (blogs d), d)))"

definition q_update_own_blog ::
  "env \<Rightarrow> string \<Rightarrow> string \<Rightarrow> string \<Rightarrow> int \<Rightarrow> database \<Rightarrow> (string + unit) \<times> database" where
  "q_update_own_blog e title content idtxt uid =
     pool_query ''UPDATE blogs SET title=$1, content=$2 WHERE id=$3 AND user_id=$4''
       [Some title, Some content, Some idtxt, Some (num_text uid)]
       (\<lambda>d. with_id e idtxt
          (\<lambda>k. ((), d\<lparr>blogs := map (\<lambda>b. if b_id b = k \<and> b_user_id b = uid
                                          then b\<lparr>b_title := Some title, b_content := Some content\<rparr>
                                          else b) (blogs d)\<rparr>)))"

definition q_delete_own_blog ::
  "env \<Rightarrow> string \<Rightarrow> int \<Rightarrow> database \<Rightarrow> (string + unit) \<times> database" where
  "q_delete_own_blog e idtxt uid =
     pool_query ''DELETE FROM blogs WHERE id=$1 AND user_id=$2'' [Some idtxt, Some (num_text uid)]
       (\<lambda>d. with_id e idtxt
          (\<lambda>k. ((), d\<lparr>blogs := filter (\<lambda>b. \<not> (b_id b = k \<and> b_user_id b = uid)) (blogs d)\<rparr>)))"

text \<open>The statements of the admin router. Their id parameter is the raw path segment.\<close>

definition lit :: "string \<Rightarrow> string" where
  "lit v = CHR 0x27 # v @ [CHR 0x27]"

definition q_admins_by_email ::
  "string option \<Rightarrow> database \<Rightarrow> (string + user list) \<times> database" where
  "q_admins_by_email email =
     pool_query (''SELECT * FROM users WHERE email=$1 AND role='' @ lit ''admin'') [email]
       (\<lambda>d. Inr (filter (\<lambda>u. Some (u_email u) = email \<and> u_role u = ''admin'') (users d), d))"

definition q_all_users :: "database \<Rightarrow> (string + user list) \<times> database" where
  "q_all_users =
     pool_query ''SELECT * FROM users ORDER BY id DESC'' []
       (\<lambda>d. Inr (newest_first u_id (users d), d))"

definition q_all_blogs :: "database \<Rightarrow> (string + (blog \<times> string) list) \<times> database" where
  "q_all_blogs =
     pool_query
       (CHR 0x0A # ''      SELECT blogs.*, users.username'' @
        CHR 0x0A # ''      FROM blogs'' @
        CHR 0x0A # ''      JOIN users ON blogs.user_id = users.id'' @
        CHR 0x0A # ''      ORDER BY blogs.created_at DESC'' @
        CHR 0x0A # ''    '') []
       (\<lambda>d. Inr (newest_first (\<lambda>r. b_created_at (fst r)) (joined d), d))"

definition q_all_messages :: "database \<Rightarrow> (string + contact_message list) \<times> database" where
  "q_all_messages =
     pool_query ''SELECT * FROM contact_messages ORDER BY created_at DESC'' []
       (\<lambda>d. Inr (newest_first m_created_at (contact_messages d), d))"

definition q_user_by_id :: "env \<Rightarrow> string \<Rightarrow> database \<Rightarrow> (string + user list) \<times> database" where
  "q_user_by_id e idtxt =
     pool_query ''SELECT * FROM users WHERE id=$1'' [Some idtxt]
       (\<lambda>d. with_id e idtxt (\<lambda>k. (filter (\<lambda>u. u_id u = k) (users d), d)))"

text \<open>
  Deleting a user whom blogs reference: either the blogs go too, or the foreign key makes
  the statement fail, as the environment says.
\<close>

definition q_delete_user :: "env \<Rightarrow> string \<Rightarrow> database \<Rightarrow> (string + unit) \<times> database" where
  "q_delete_user e idtxt =
     pool_query ''DELETE FROM users WHERE id=$1'' [Some idtxt]
       (\<lambda>d. case id_in e idtxt of
               None \<Rightarrow> Inl (''invalid input syntax for type integer: '' @ CHR 0x22 # idtxt @ [CHR 0x22])
             | Some k \<Rightarrow>
                 if cascade e then
                   Inr ((), d\<lparr>users := filter (\<lambda>u. u_id u \<noteq> k) (users d),
                              blogs := filter (\<lambda>b. b_user_id b \<noteq> k) (blogs d)\<rparr>)
                 else if k \<in> set (map u_id (users d)) \<and> k \<in> set (map b_user_id (blogs d)) then
                   Inl ''update or delete on table users violates foreign key constraint''
                 else Inr ((), d\<lparr>users := filter (\<lambda>u. u_id u \<noteq> k) (users d)\<rparr>))"

definition q_set_role :: "env \<Rightarrow> string \<Rightarrow> string \<Rightarrow> database \<Rightarrow> (string + unit) \<times> database" where
  "q_set_role e r idtxt =
     pool_query (''UPDATE users SET role='' @ lit r @ '' WHERE id=$1'') [Some idtxt]
       (\<lambda>d. with_id e idtxt
          (\<lambda>k. ((), d\<lparr>users := map (\<lambda>u. if u_id u = k then u\<lparr>u_role := r\<rparr> else u) (users d)\<rparr>)))"

definition q_set_password_by_id ::
  "env \<Rightarrow> string \<Rightarrow> string \<Rightarrow> database \<Rightarrow> (string + unit) \<times> database" where
  "q_set_password_by_id e hashed idtxt =
     pool_query ''UPDATE users SET password=$1 WHERE id=$2'' [Some hashed, Some idtxt]
       (\<lambda>d. with_id e idtxt
          (\<lambda>k. ((), d\<lparr>users := map (\<lambda>u. if u_id u = k then u\<lparr>u_password := hashed\<rparr> else u)
                                    (users d)\<rparr>)))"

definition q_delete_blog :: "env \<Rightarrow> string \<Rightarrow> database \<Rightarrow> (string + unit) \<times> database" where
  "q_delete_blog e idtxt =
     pool_query ''DELETE FROM blogs WHERE id=$1'' [Some idtxt]
       (\<lambda>d. with_id e idtxt (\<lambda>k. ((), d\<lparr>blogs := filter (\<lambda>b. b_id b \<noteq> k) (blogs d)\<rparr>)))"

definition q_approve_blog :: "env \<Rightarrow> string \<Rightarrow> database \<Rightarrow> (string + unit) \<times> database" where
  "q_approve_blog e idtxt =
     pool_query (''UPDATE blogs SET status='' @ lit ''approved'' @ '' WHERE id=$1'') [Some idtxt]
       (\<lambda>d. with_id e idtxt
          (\<lambda>k. ((), d\<lparr>blogs := map (\<lambda>b. if b_id b = k then b\<lparr>b_status := Some ''approved''\<rparr> else b)
                                    (blogs d)\<rparr>)))"

definition q_blog_by_id :: "env \<Rightarrow> string \<Rightarrow> database \<Rightarrow> (string + blog list) \<times> database" where
  "q_blog_by_id e idtxt =
     pool_query ''SELECT * FROM blogs WHERE id=$1'' [Some idtxt]
       (\<lambda>d. with_id e idtxt (\<lambda>k. (filter (\<lambda>b. b_id b = k) (blogs d), d)))"

definition q_update_blog ::
  "env \<Rightarrow> string option \<Rightarrow> string option \<Rightarrow> string \<Rightarrow> database \<Rightarrow> (string + unit) \<times> database" where
  "q_update_blog e title content idtxt =
     pool_query ''UPDATE blogs SET title=$1, content=$2 WHERE id=$3'' [title, content, Some idtxt]
       (\<lambda>d. with_id e idtxt
          (\<lambda>k. ((), d\<lparr>blogs := map (\<lambda>b. if b_id b = k then b\<lparr>b_title := title, b_content := content\<rparr>
                                          else b) (blogs d)\<rparr>)))"

section \<open>Requests and responses\<close>

datatype jsval =
    VNull
  | VBool bool
  | VStr string
  | VOptStr "string option"
  | VStrs "string list"
  | VIdentity identity
  | VUsers "user list"
  | VBlog blog
  | VBlogs "blog list"
  | VPost "blog \<times> string"
  | VPosts "(blog \<times> string) list"
  | VMessages "contact_message list"

datatype reply =
    Render string "(string \<times> jsval) list"
  | Redirect string
  | Json "(string \<times> jsval) list"
  | Send string

type_synonym outcome = "nat \<times> reply"

text \<open>
  \<open>req.body\<close> as the body parsers leave it for a form: string fields by name. A field that
  is not in the list reads as \<open>undefined\<close>.
\<close>

type_synonym form = "(string \<times> string) list"

text \<open>
  A request is the route it matches with the route's \<open>:id\<close> segment and the parsed body;
  \<open>NoRoute\<close> is any method and path that no route matches.
\<close>

datatype request =
    GetHome
  | GetSignup | PostSignup form
  | GetLogin | PostLogin form
  | GetLogout
  | GetForgotPassword | PostForgotPassword form
  | PostContact form
  | GetDashboard
  | GetCreate | PostCreate form
  | GetView string
  | GetEdit string | PostEdit string form
  | PostDelete string
  | GetContact | GetAbout
  | AdminGetLogin | AdminPostLogin form
  | AdminGetLogout
  | AdminGetDashboard
  | AdminGetMessages
  | AdminGetUsers
  | AdminPostUsersDelete string
  | AdminPostUsersPromote string
  | AdminPostUsersDemote string
  | AdminPostUsersResetPassword string
  | AdminGetBlogs
  | AdminPostBlogsDelete string
  | AdminPostBlogsApprove string
  | AdminGetBlogsEdit string
  | AdminPostBlogsEdit string form
  | AdminGetContactMessages
  | NoRoute

record response =
  status :: nat
  reply :: reply
  locals :: "(string \<times> jsval) list"

definition field :: "form \<Rightarrow> string \<Rightarrow> string option" where
  "field body k = map_of body k"

text \<open>\<open>!x\<close> for a body field: it is missing or the empty string.\<close>

definition falsy :: "string option \<Rightarrow> bool" where
  "falsy x = (case x of None \<Rightarrow> True | Some v \<Rightarrow> v = [])"

definition str :: "string option \<Rightarrow> string" where
  "str x = (case x of None \<Rightarrow> [] | Some v \<Rightarrow> v)"

definition redirect :: "string \<Rightarrow> outcome" where
  "redirect path = (302, Redirect path)"

definition render :: "string \<Rightarrow> (string \<times> jsval) list \<Rightarrow> outcome" where
  "render view opts = (200, Render view opts)"

text \<open>\<open>req.flash("error", msg)\<close> and \<open>req.flash("success", msg)\<close>.\<close>

definition flash_err :: "string \<Rightarrow> state \<Rightarrow> state" where
  "flash_err msg s = s\<lparr>sess := (sess s)\<lparr>flash_error := flash_error (sess s) @ [msg]\<rparr>\<rparr>"

definition flash_ok :: "string \<Rightarrow> state \<Rightarrow> state" where
  "flash_ok msg s = s\<lparr>sess := (sess s)\<lparr>flash_success := flash_success (sess s) @ [msg]\<rparr>\<rparr>"

definition session_user :: "state \<Rightarrow> jsval" where
  "session_user s = (case s_user (sess s) of None \<Rightarrow> VNull | Some i \<Rightarrow> VIdentity i)"

text \<open>The session after \<open>req.session.destroy\<close>: the next request starts a new one.\<close>

definition empty_session :: session where
  "empty_session = \<lparr>s_user = None, flash_error = [], flash_success = []\<rparr>"

text \<open>
  The last middleware of index.js: what \<open>asyncHandler\<close> passes to \<open>next\<close> is rendered
  as the error page with status 500.
\<close>

definition server_error :: "string \<Rightarrow> outcome" where
  "server_error m =
     (500, Render ''error'' [(''message'', VStr (if m = [] then ''Server Error'' else m))])"

text \<open>
  The message of the TypeError that reading \<open>req.session.user.id\<close> raises when there is
  no identity; the gate in front of the handler keeps that from happening.
\<close>

definition no_identity :: string where
  "no_identity = ''Cannot read properties of undefined''"

section \<open>Middleware\<close>

text \<open>
  The global template variables: every request drains both flash queues into
  \<open>res.locals\<close> before it is routed.
\<close>

definition global_locals :: "state \<Rightarrow> (string \<times> jsval) list \<times> state" where
  "global_locals s =
     ([(''user'', session_user s),
       (''success_msg'', VStrs (flash_success (sess s))),
       (''error_msg'', VStrs (flash_error (sess s))),
       (''title'', VStr ''Typely''),
       (''hideNavbar'', VBool False),
       (''showTagline'', VBool True)],
      s\<lparr>sess := (sess s)\<lparr>flash_success := [], flash_error := []\<rparr>\<rparr>)"

definition checkAuth :: "(state \<Rightarrow> outcome \<times> state) \<Rightarrow> state \<Rightarrow> outcome \<times> state" where
  "checkAuth next s =
     (if s_user (sess s) \<noteq> None then next s
      else (redirect ''/login'', flash_err ''Please login to continue'' s))"

definition isAdmin :: "(state \<Rightarrow> outcome \<times> state) \<Rightarrow> state \<Rightarrow> outcome \<times> state" where
  "isAdmin next s =
     (case s_user (sess s) of
        None \<Rightarrow> (redirect ''/admin/login'', s)
      | Some i \<Rightarrow> if i_role i = Some ''admin'' then next s else (redirect ''/admin/login'', s))"

section \<open>Public routes (index.js)\<close>

definition home_get :: "state \<Rightarrow> outcome \<times> state" where
  "home_get s =
     (case q_home (db s) of
        (Inl m, d) \<Rightarrow> (server_error m, s\<lparr>db := d\<rparr>)
      | (Inr rows, d) \<Rightarrow>
          (render ''index'' [(''blogs'', VPosts rows), (''title'', VStr ''Home'')], s\<lparr>db := d\<rparr>))"

definition signup_get :: "state \<Rightarrow> outcome \<times> state" where
  "signup_get s =
     (if s_user (sess s) \<noteq> None then (redirect ''/'', s)
      else (render ''signup'' [(''title'', VStr ''Signup''), (''hideNavbar'', VBool True)], s))"

definition signup_post :: "env \<Rightarrow> form \<Rightarrow> state \<Rightarrow> outcome \<times> state" where
  "signup_post e body s =
     (let username = field body ''username'';
          email = field body ''email'';
          password = field body ''password''
      in if falsy username \<or> falsy email \<or> falsy password then
           (redirect ''/signup'', flash_err ''All fields are required'' s)
         else if length (str password) < 6 then
           (redirect ''/signup'', flash_err ''Password must be at least 6 characters long'' s)
         else
           (case q_user_taken (str email) (str username) (db s) of
              (Inl m, d) \<Rightarrow> (server_error m, s\<lparr>db := d\<rparr>)
            | (Inr existing, d) \<Rightarrow>
                if 0 < length existing then
                  (redirect ''/signup'', flash_err ''Email or username already exists'' (s\<lparr>db := d\<rparr>))
                else
                  (case q_insert_user (str username) (str email) (bcrypt_hash e (str password)) d of
                     (Inl m, d') \<Rightarrow> (server_error m, s\<lparr>db := d'\<rparr>)
                   | (Inr [], d') \<Rightarrow> (server_error no_identity, s\<lparr>db := d'\<rparr>)
                   | (Inr (row # _), d') \<Rightarrow>
                       (redirect ''/'',
                        flash_ok ''Signup successful! Welcome!''
                          (s\<lparr>db := d',
                             sess := (sess s)\<lparr>s_user :=
                               Some \<lparr>i_id = fst row, i_username = snd row,
                                     i_email = None, i_role = None\<rparr>\<rparr>\<rparr>)))))"

definition login_get :: "state \<Rightarrow> outcome \<times> state" where
  "login_get s =
     (if s_user (sess s) \<noteq> None then (redirect ''/'', s)
      else (render ''login'' [(''title'', VStr ''Login''), (''hideNavbar'', VBool True)], s))"

definition login_post :: "env \<Rightarrow> form \<Rightarrow> state \<Rightarrow> outcome \<times> state" where
  "login_post e body s =
     (let email = field body ''email'';
          password = field body ''password''
      in if falsy email \<or> falsy password then
           (redirect ''/login'', flash_err ''All fields are required'' s)
         else
           (case q_users_by_email (str email) (db s) of
              (Inl m, d) \<Rightarrow> (server_error m, s\<lparr>db := d\<rparr>)
            | (Inr [], d) \<Rightarrow> (redirect ''/login'', flash_err ''User not found'' (s\<lparr>db := d\<rparr>))
            | (Inr (user # _), d) \<Rightarrow>
                if \<not> bcrypt_compare e (str password) (u_password user) then
                  (redirect ''/login'', flash_err ''Incorrect password'' (s\<lparr>db := d\<rparr>))
                else
                  (redirect ''/'',
                   flash_ok (''Welcome back, '' @ u_username user @ ''!'')
                     (s\<lparr>db := d,
                        sess := (sess s)\<lparr>s_user :=
                          Some \<lparr>i_id = u_id user, i_username = u_username user,
                                i_email = None, i_role = None\<rparr>\<rparr>\<rparr>))))"

definition logout_get :: "state \<Rightarrow> outcome \<times> state" where
  "logout_get s = (redirect ''/login'', s\<lparr>sess := empty_session\<rparr>)"

definition forgot_password_get :: "state \<Rightarrow> outcome \<times> state" where
  "forgot_password_get s =
     (render ''forgot-password''
        [(''title'', VStr ''Forgot Password''), (''hideNavbar'', VBool True),
         (''error_msg'', VStrs (flash_error (sess s))),
         (''success_msg'', VStrs (flash_success (sess s)))],
      s\<lparr>sess := (sess s)\<lparr>flash_error := [], flash_success := []\<rparr>\<rparr>)"

definition forgot_password_post :: "env \<Rightarrow> form \<Rightarrow> state \<Rightarrow> outcome \<times> state" where
  "forgot_password_post e body s =
     (let email = field body ''email'';
          newPassword = field body ''newPassword''
      in if falsy email \<or> falsy newPassword then
           (redirect ''/forgot-password'', flash_err ''All fields are required'' s)
         else
           (case q_users_by_email (str email) (db s) of
              (Inl m, d) \<Rightarrow> (server_error m, s\<lparr>db := d\<rparr>)
            | (Inr [], d) \<Rightarrow>
                (redirect ''/forgot-password'',
                 flash_err ''No account found with this email'' (s\<lparr>db := d\<rparr>))
            | (Inr (_ # _), d) \<Rightarrow>
                (case q_set_password_by_email (bcrypt_hash e (str newPassword)) (str email) d of
                   (Inl m, d') \<Rightarrow> (server_error m, s\<lparr>db := d'\<rparr>)
                 | (Inr _, d') \<Rightarrow>
                     (redirect ''/login'',
                      flash_ok ''Password reset successfully. You can now login.'' (s\<lparr>db := d'\<rparr>)))))"

definition contact_post :: "form \<Rightarrow> state \<Rightarrow> outcome \<times> state" where
  "contact_post body s =
     (let name = field body ''name'';
          email = field body ''email'';
          message = field body ''message''
      in if falsy name \<or> falsy email \<or> falsy message then
           ((200, Json [(''success'', VBool False), (''error'', VStr ''All fields are required'')]), s)
         else
           (case q_insert_contact (str name) (str email) (str message) (db s) of
              (Inr _, d) \<Rightarrow>
                ((200, Json [(''success'', VBool True),
                             (''message'', VStr ''Message sent successfully!'')]), s\<lparr>db := d\<rparr>)
            | (Inl err, d) \<Rightarrow>
                ((200, Json [(''success'', VBool False),
                             (''error'', VStr ''Server error while sending message'')]), s\<lparr>db := d\<rparr>)))"

definition dashboard_get :: "state \<Rightarrow> outcome \<times> state" where
  "dashboard_get s =
     (case s_user (sess s) of
        None \<Rightarrow> (server_error no_identity, s)
      | Some i \<Rightarrow>
          (case q_blogs_of (i_id i) (db s) of
             (Inl m, d) \<Rightarrow> (server_error m, s\<lparr>db := d\<rparr>)
           | (Inr rows, d) \<Rightarrow>
               (render ''dashboard'' [(''userBlogs'', VBlogs rows), (''title'', VStr ''Dashboard'')],
                s\<lparr>db := d\<rparr>)))"

definition create_get :: "state \<Rightarrow> outcome \<times> state" where
  "create_get s = (render ''create'' [(''title'', VStr ''Create Blog'')], s)"

definition create_post :: "env \<Rightarrow> form \<Rightarrow> state \<Rightarrow> outcome \<times> state" where
  "create_post e body s =
     (let title = field body ''title'';
          content = field body ''content''
      in if falsy title \<or> falsy content then
           (redirect ''/create'', flash_err ''All fields are required'' s)
         else
           (case s_user (sess s) of
              None \<Rightarrow> (server_error no_identity, s)
            | Some i \<Rightarrow>
                (case q_insert_blog e (i_id i) (str title) (str content) (db s) of
                   (Inl m, d) \<Rightarrow> (server_error m, s\<lparr>db := d\<rparr>)
                 | (Inr _, d) \<Rightarrow>
                     (redirect ''/dashboard'', flash_ok ''Blog created successfully'' (s\<lparr>db := d\<rparr>)))))"

definition invalid_blog_id :: outcome where
  "invalid_blog_id = (400, Render ''error'' [(''message'', VStr ''Invalid blog ID'')])"

definition view_get :: "env \<Rightarrow> string \<Rightarrow> state \<Rightarrow> outcome \<times> state" where
  "view_get e id_param s =
     (let id = parseInt id_param
      in if \<not> validateId id then (invalid_blog_id, s)
         else
           (case q_view e (numToString id) (db s) of
              (Inl m, d) \<Rightarrow> (server_error m, s\<lparr>db := d\<rparr>)
            | (Inr [], d) \<Rightarrow>
                ((404, Render ''404'' [(''message'', VStr ''Blog not found'')]), s\<lparr>db := d\<rparr>)
            | (Inr (row # _), d) \<Rightarrow>
                (render ''viewblog'' [(''blog'', VPost row), (''title'', VOptStr (b_title (fst row)))],
                 s\<lparr>db := d\<rparr>)))"

definition edit_get :: "env \<Rightarrow> string \<Rightarrow> state \<Rightarrow> outcome \<times> state" where
  "edit_get e id_param s =
     (let id = parseInt id_param
      in if \<not> validateId id then (invalid_blog_id, s)
         else
           (case s_user (sess s) of
              None \<Rightarrow> (server_error no_identity, s)
            | Some i \<Rightarrow>
                (case q_own_blog e (numToString id) (i_id i) (db s) of
                   (Inl m, d) \<Rightarrow> (server_error m, s\<lparr>db := d\<rparr>)
                 | (Inr [], d) \<Rightarrow>
                     ((403, Render ''error'' [(''message'', VStr ''Not authorized'')]), s\<lparr>db := d\<rparr>)
                 | (Inr (b # _), d) \<Rightarrow>
                     (render ''edit'' [(''blog'', VBlog b), (''title'', VStr ''Edit Blog'')],
                      s\<lparr>db := d\<rparr>))))"

definition edit_post :: "env \<Rightarrow> string \<Rightarrow> form \<Rightarrow> state \<Rightarrow> outcome \<times> state" where
  "edit_post e id_param body s =
     (let id = parseInt id_param;
          title = field body ''title'';
          content = field body ''content''
      in if falsy title \<or> falsy content then
           (redirect (''/edit/'' @ numToString id), flash_err ''All fields are required'' s)
         else
           (case s_user (sess s) of
              None \<Rightarrow> (server_error no_identity, s)
            | Some i \<Rightarrow>
                (case q_update_own_blog e (str title) (str content) (numToString id) (i_id i) (db s) of
                   (Inl m, d) \<Rightarrow> (server_error m, s\<lparr>db := d\<rparr>)
                 | (Inr _, d) \<Rightarrow>
                     (redirect ''/dashboard'', flash_ok ''Blog updated successfully'' (s\<lparr>db := d\<rparr>)))))"

definition delete_post :: "env \<Rightarrow> string \<Rightarrow> state \<Rightarrow> outcome \<times> state" where
  "delete_post e id_param s =
     (let id = parseInt id_param
      in if \<not> validateId id then (invalid_blog_id, s)
         else
           (case s_user (sess s) of
              None \<Rightarrow> (server_error no_identity, s)
            | Some i \<Rightarrow>
                (case q_delete_own_blog e (numToString id) (i_id i) (db s) of
                   (Inl m, d) \<Rightarrow> (server_error m, s\<lparr>db := d\<rparr>)
                 | (Inr _, d) \<Rightarrow>
                     (redirect ''/dashboard'', flash_ok ''Blog deleted successfully'' (s\<lparr>db := d\<rparr>)))))"

definition contact_get :: "state \<Rightarrow> outcome \<times> state" where
  "contact_get s = (render ''contact'' [(''title'', VStr ''Contact'')], s)"

definition about_get :: "state \<Rightarrow> outcome \<times> state" where
  "about_get s = (render ''about'' [(''title'', VStr ''About'')], s)"

definition not_found :: "state \<Rightarrow> outcome \<times> state" where
  "not_found s = ((404, Render ''404'' [(''title'', VStr ''Page Not Found'')]), s)"

section \<open>Admin routes (adminRoutes.js)\<close>

text \<open>Every admin handler catches a rejected statement and sends a plain 500.\<close>

definition send :: "nat \<Rightarrow> string \<Rightarrow> outcome" where
  "send code text = (code, Send text)"

definition admin_login_page :: "jsval \<Rightarrow> outcome" where
  "admin_login_page err = render ''admin/admin-login'' [(''layout'', VBool False), (''error'', err)]"

definition admin_login_get :: "state \<Rightarrow> outcome \<times> state" where
  "admin_login_get s = (admin_login_page VNull, s)"

text \<open>
  The body is not validated: a missing email is sent as NULL and matches no row; a
  missing password makes \<open>bcrypt.compare\<close> reject, which the handler catches.
\<close>

definition admin_login_post :: "env \<Rightarrow> form \<Rightarrow> state \<Rightarrow> outcome \<times> state" where
  "admin_login_post e body s =
     (let email = field body ''email'';
          password = field body ''password''
      in case q_admins_by_email email (db s) of
           (Inl m, d) \<Rightarrow> (send 500 ''Server error'', s\<lparr>db := d\<rparr>)
         | (Inr [], d) \<Rightarrow> (admin_login_page (VStr ''Invalid email or password''), s\<lparr>db := d\<rparr>)
         | (Inr (admin # _), d) \<Rightarrow>
             (case password of
                None \<Rightarrow> (send 500 ''Server error'', s\<lparr>db := d\<rparr>)
              | Some pw \<Rightarrow>
                  if \<not> bcrypt_compare e pw (u_password admin) then
                    (admin_login_page (VStr ''Invalid email or password''), s\<lparr>db := d\<rparr>)
                  else
                    (redirect ''/admin'',
                     s\<lparr>db := d,
                       sess := (sess s)\<lparr>s_user :=
                         Some \<lparr>i_id = u_id admin, i_username = u_username admin,
                               i_email = Some (u_email admin), i_role = Some (u_role admin)\<rparr>\<rparr>\<rparr>)))"

definition admin_logout_get :: "state \<Rightarrow> outcome \<times> state" where
  "admin_logout_get s = (redirect ''/admin/login'', s\<lparr>sess := empty_session\<rparr>)"

definition admin_dashboard_get :: "state \<Rightarrow> outcome \<times> state" where
  "admin_dashboard_get s =
     (case q_all_users (db s) of
        (Inl m, d) \<Rightarrow> (send 500 ''Server error'', s\<lparr>db := d\<rparr>)
      | (Inr usersResult, d) \<Rightarrow>
          (case q_all_blogs d of
             (Inl m, d') \<Rightarrow> (send 500 ''Server error'', s\<lparr>db := d'\<rparr>)
           | (Inr blogsResult, d') \<Rightarrow>
               (render ''admin/admin-dashboard''
                  [(''layout'', VBool False), (''user'', session_user s),
                   (''users'', VUsers usersResult), (''blogs'', VPosts blogsResult)],
                s\<lparr>db := d'\<rparr>)))"

definition admin_messages_get :: "state \<Rightarrow> outcome \<times> state" where
  "admin_messages_get s =
     (case q_all_messages (db s) of
        (Inl m, d) \<Rightarrow> (send 500 ''Error retrieving messages'', s\<lparr>db := d\<rparr>)
      | (Inr rows, d) \<Rightarrow>
          (render ''admin/admin-messages''
             [(''layout'', VBool False), (''user'', session_user s), (''messages'', VMessages rows)],
           s\<lparr>db := d\<rparr>))"

definition admin_users_get :: "state \<Rightarrow> outcome \<times> state" where
  "admin_users_get s =
     (case q_all_users (db s) of
        (Inl m, d) \<Rightarrow> (send 500 ''Server error'', s\<lparr>db := d\<rparr>)
      | (Inr usersResult, d) \<Rightarrow>
          (render ''admin/admin-users''
             [(''layout'', VBool False), (''user'', session_user s), (''users'', VUsers usersResult)],
           s\<lparr>db := d\<rparr>))"

definition admin_users_delete :: "env \<Rightarrow> string \<Rightarrow> state \<Rightarrow> outcome \<times> state" where
  "admin_users_delete e userId s =
     (case q_user_by_id e userId (db s) of
        (Inl m, d) \<Rightarrow> (send 500 ''Server error'', s\<lparr>db := d\<rparr>)
      | (Inr [], d) \<Rightarrow> (send 404 ''User not found'', s\<lparr>db := d\<rparr>)
      | (Inr (u # _), d) \<Rightarrow>
          if u_role u = ''admin'' then (send 403 ''Cannot delete another admin'', s\<lparr>db := d\<rparr>)
          else
            (case q_delete_user e userId d of
               (Inl m, d') \<Rightarrow> (send 500 ''Server error'', s\<lparr>db := d'\<rparr>)
             | (Inr _, d') \<Rightarrow> (redirect ''/admin/users'', s\<lparr>db := d'\<rparr>)))"

definition admin_users_promote :: "env \<Rightarrow> string \<Rightarrow> state \<Rightarrow> outcome \<times> state" where
  "admin_users_promote e id_param s =
     (case q_set_role e ''admin'' id_param (db s) of
        (Inl m, d) \<Rightarrow> (send 500 ''Server error'', s\<lparr>db := d\<rparr>)
      | (Inr _, d) \<Rightarrow> (redirect ''/admin/users'', s\<lparr>db := d\<rparr>))"

definition admin_users_demote :: "env \<Rightarrow> string \<Rightarrow> state \<Rightarrow> outcome \<times> state" where
  "admin_users_demote e id_param s =
     (case q_set_role e ''user'' id_param (db s) of
        (Inl m, d) \<Rightarrow> (send 500 ''Server error'', s\<lparr>db := d\<rparr>)
      | (Inr _, d) \<Rightarrow> (redirect ''/admin/users'', s\<lparr>db := d\<rparr>))"

definition admin_users_reset_password :: "env \<Rightarrow> string \<Rightarrow> state \<Rightarrow> outcome \<times> state" where
  "admin_users_reset_password e id_param s =
     (let newPassword = ''123456'';
          hashedPassword = bcrypt_hash e newPassword
      in case q_set_password_by_id e hashedPassword id_param (db s) of
           (Inl m, d) \<Rightarrow> (send 500 ''Server error'', s\<lparr>db := d\<rparr>)
         | (Inr _, d) \<Rightarrow> (redirect ''/admin/users'', s\<lparr>db := d\<rparr>))"

definition admin_blogs_get :: "state \<Rightarrow> outcome \<times> state" where
  "admin_blogs_get s =
     (case q_all_blogs (db s) of
        (Inl m, d) \<Rightarrow> (send 500 ''Server error'', s\<lparr>db := d\<rparr>)
      | (Inr blogsResult, d) \<Rightarrow>
          (render ''admin/admin-blogs''
             [(''layout'', VBool False), (''user'', session_user s), (''blogs'', VPosts blogsResult)],
           s\<lparr>db := d\<rparr>))"

definition admin_blogs_delete :: "env \<Rightarrow> string \<Rightarrow> state \<Rightarrow> outcome \<times> state" where
  "admin_blogs_delete e id_param s =
     (case q_delete_blog e id_param (db s) of
        (Inl m, d) \<Rightarrow> (send 500 ''Server error'', s\<lparr>db := d\<rparr>)
      | (Inr _, d) \<Rightarrow> (redirect ''/admin/blogs'', s\<lparr>db := d\<rparr>))"

definition admin_blogs_approve :: "env \<Rightarrow> string \<Rightarrow> state \<Rightarrow> outcome \<times> state" where
  "admin_blogs_approve e id_param s =
     (case q_approve_blog e id_param (db s) of
        (Inl m, d) \<Rightarrow> (send 500 ''Server error'', s\<lparr>db := d\<rparr>)
      | (Inr _, d) \<Rightarrow> (redirect ''/admin/blogs'', s\<lparr>db := d\<rparr>))"

definition admin_blogs_edit_get :: "env \<Rightarrow> string \<Rightarrow> state \<Rightarrow> outcome \<times> state" where
  "admin_blogs_edit_get e id_param s =
     (case q_blog_by_id e id_param (db s) of
        (Inl m, d) \<Rightarrow> (send 500 ''Server error'', s\<lparr>db := d\<rparr>)
      | (Inr [], d) \<Rightarrow> (send 404 ''Blog not found'', s\<lparr>db := d\<rparr>)
      | (Inr (b # _), d) \<Rightarrow>
          (render ''admin/admin-edit-blog''
             [(''layout'', VBool False), (''user'', session_user s), (''blog'', VBlog b)],
           s\<lparr>db := d\<rparr>))"

definition admin_blogs_edit_post :: "env \<Rightarrow> string \<Rightarrow> form \<Rightarrow> state \<Rightarrow> outcome \<times> state" where
  "admin_blogs_edit_post e id_param body s =
     (let title = field body ''title'';
          content = field body ''content''
      in case q_update_blog e title content id_param (db s) of
           (Inl m, d) \<Rightarrow> (send 500 ''Server error'', s\<lparr>db := d\<rparr>)
         | (Inr _, d) \<Rightarrow> (redirect ''/admin/blogs'', s\<lparr>db := d\<rparr>))"

definition admin_contact_messages_get :: "state \<Rightarrow> outcome \<times> state" where
  "admin_contact_messages_get s =
     (case q_all_messages (db s) of
        (Inl m, d) \<Rightarrow> (send 500 ''Error retrieving messages'', s\<lparr>db := d\<rparr>)
      | (Inr rows, d) \<Rightarrow>
          (render ''admin/admin-messages''
             [(''layout'', VBool False), (''user'', session_user s), (''messages'', VMessages rows)],
           s\<lparr>db := d\<rparr>))"

section \<open>The application\<close>

text \<open>The route table: each route with the gate registered in front of its handler.\<close>

fun route :: "env \<Rightarrow> request \<Rightarrow> state \<Rightarrow> outcome \<times> state" where
  "route e GetHome = home_get"
| "route e GetSignup = signup_get"
| "route e (PostSignup body) = signup_post e body"
| "route e GetLogin = login_get"
| "route e (PostLogin body) = login_post e body"
| "route e GetLogout = logout_get"
| "route e GetForgotPassword = forgot_password_get"
| "route e (PostForgotPassword body) = forgot_password_post e body"
| "route e (PostContact body) = contact_post body"
| "route e GetDashboard = checkAuth dashboard_get"
| "route e GetCreate = checkAuth create_get"
| "route e (PostCreate body) = checkAuth (create_post e body)"
| "route e (GetView i) = view_get e i"
| "route e (GetEdit i) = checkAuth (edit_get e i)"
| "route e (PostEdit i body) = checkAuth (edit_post e i body)"
| "route e (PostDelete i) = checkAuth (delete_post e i)"
| "route e GetContact = contact_get"
| "route e GetAbout = about_get"
| "route e AdminGetLogin = admin_login_get"
| "route e (AdminPostLogin body) = admin_login_post e body"
| "route e AdminGetLogout = isAdmin admin_logout_get"
| "route e AdminGetDashboard = isAdmin admin_dashboard_get"
| "route e AdminGetMessages = isAdmin admin_messages_get"
| "route e AdminGetUsers = isAdmin admin_users_get"
| "route e (AdminPostUsersDelete i) = isAdmin (admin_users_delete e i)"
| "route e (AdminPostUsersPromote i) = isAdmin (admin_users_promote e i)"
| "route e (AdminPostUsersDemote i) = isAdmin (admin_users_demote e i)"
| "route e (AdminPostUsersResetPassword i) = isAdmin (admin_users_reset_password e i)"
| "route e AdminGetBlogs = isAdmin admin_blogs_get"
| "route e (AdminPostBlogsDelete i) = isAdmin (admin_blogs_delete e i)"
| "route e (AdminPostBlogsApprove i) = isAdmin (admin_blogs_approve e i)"
| "route e (AdminGetBlogsEdit i) = isAdmin (admin_blogs_edit_get e i)"
| "route e (AdminPostBlogsEdit i body) = isAdmin (admin_blogs_edit_post e i body)"
| "route e AdminGetContactMessages = isAdmin admin_contact_messages_get"
| "route e NoRoute = not_found"

text \<open>
  What the application does with a request once its body is read: the session is there,
  the global template variables are set (which drains the flash queues), and the request
  is routed.
\<close>

definition app :: "env \<Rightarrow> request \<Rightarrow> state \<Rightarrow> response \<times> state" where
  "app e req s =
     (let (L, s1) = global_locals s;
          (out, s2) = route e req s1
      in (\<lparr>status = fst out, reply = snd out, locals = L\<rparr>, s2))"

text \<open>
  In front of all that, \<open>express.urlencoded\<close> and \<open>express.json\<close> read the body of every
  request. A body they refuse (JSON that does not parse, a body over the size limit, an
  unsupported encoding) is an error passed to \<open>next\<close>: the session, the template variables
  and the routes are skipped, whatever the method and the path, and the last middleware of
  index.js answers with status 500 and the error page carrying the parser's message.
  Nothing was put into \<open>res.locals\<close> and neither the session nor the database is touched.
  What arrives at the server is thus a request with its body read, or a method and a path
  with the message of the parser's error.
\<close>

datatype arrival =
    Parsed request
  | BadBody string string string

definition serve :: "env \<Rightarrow> arrival \<Rightarrow> state \<Rightarrow> response \<times> state" where
  "serve e a s =
     (case a of
        Parsed req \<Rightarrow> app e req s
      | BadBody method path m \<Rightarrow>
          (\<lparr>status = fst (server_error m), reply = snd (server_error m), locals = []\<rparr>, s))"

text \<open>The routes behind each gate, and the routes with an \<open>:id\<close> segment.\<close>

fun needs_user :: "request \<Rightarrow> bool" where
  "needs_user GetDashboard = True"
| "needs_user GetCreate = True"
| "needs_user (PostCreate _) = True"
| "needs_user (GetEdit _) = True"
| "needs_user (PostEdit _ _) = True"
| "needs_user (PostDelete _) = True"
| "needs_user _ = False"

fun needs_admin :: "request \<Rightarrow> bool" where
  "needs_admin AdminGetLogout = True"
| "needs_admin AdminGetDashboard = True"
| "needs_admin AdminGetMessages = True"
| "needs_admin AdminGetUsers = True"
| "needs_admin (AdminPostUsersDelete _) = True"
| "needs_admin (AdminPostUsersPromote _) = True"
| "needs_admin (AdminPostUsersDemote _) = True"
| "needs_admin (AdminPostUsersResetPassword _) = True"
| "needs_admin AdminGetBlogs = True"
| "needs_admin (AdminPostBlogsDelete _) = True"
| "needs_admin (AdminPostBlogsApprove _) = True"
| "needs_admin (AdminGetBlogsEdit _) = True"
| "needs_admin (AdminPostBlogsEdit _ _) = True"
| "needs_admin AdminGetContactMessages = True"
| "needs_admin _ = False"

section \<open>Notions the properties are stated with\<close>

definition admin_session :: "state \<Rightarrow> bool" where
  "admin_session s =
     (case s_user (sess s) of None \<Rightarrow> False | Some i \<Rightarrow> i_role i = Some ''admin'')"

text \<open>The database rejects the next statement whatever it is.\<close>

definition rejects_next :: "database \<Rightarrow> bool" where
  "rejects_next d = (case faults d of Some m # _ \<Rightarrow> True | _ \<Rightarrow> False)"

definition same_tables :: "database \<Rightarrow> database \<Rightarrow> bool" where
  "same_tables d d' =
     (users d' = users d \<and> blogs d' = blogs d \<and> contact_messages d' = contact_messages d)"

definition user_ids :: "database \<Rightarrow> int set" where
  "user_ids d = set (map u_id (users d))"

definition approve_rows :: "int \<Rightarrow> blog list \<Rightarrow> blog list" where
  "approve_rows k bs = map (\<lambda>b. if b_id b = k then b\<lparr>b_status := Some ''approved''\<rparr> else b) bs"

text \<open>
  The specification's wording of the id check, "is this a base-10 integer string": an
  optional minus sign and then decimal digits only, at least one.
\<close>

definition base10_integer_string :: "string \<Rightarrow> bool" where
  "base10_integer_string t =
     (let ds = (case t of [] \<Rightarrow> [] | c # cs \<Rightarrow> if c = CHR ''-'' then cs else t)
      in ds \<noteq> [] \<and> list_all (is_digit 10) ds)"

text \<open>The POST requests to /contact, with a body that was read or one that was refused.\<close>

definition post_to_contact :: "arrival \<Rightarrow> bool" where
  "post_to_contact a =
     (case a of
        Parsed req \<Rightarrow> (case req of PostContact _ \<Rightarrow> True | _ \<Rightarrow> False)
      | BadBody method path _ \<Rightarrow> method = ''POST'' \<and> path = ''/contact'')"

text \<open>The database after it has received a statement: logged, one entry of the schedule used.\<close>

definition sent :: "string \<Rightarrow> string option list \<Rightarrow> database \<Rightarrow> database" where
  "sent sql ps d = d\<lparr>issued := issued d @ [(sql, ps)], faults := tl (faults d)\<rparr>"

text \<open>A statement, and a handler, that removes no user id from the users table.\<close>

definition keeps_users :: "(database \<Rightarrow> 'a \<times> database) \<Rightarrow> bool" where
  "keeps_users q = (\<forall>d. user_ids d \<subseteq> user_ids (snd (q d)))"

definition handler_keeps_users :: "(state \<Rightarrow> outcome \<times> state) \<Rightarrow> bool" where
  "handler_keeps_users h = (\<forall>s. user_ids (db s) \<subseteq> user_ids (db (snd (h s))))"

text \<open>A handler that turns no session into an admin session.\<close>

definition keeps_rank :: "(state \<Rightarrow> outcome \<times> state) \<Rightarrow> bool" where
  "keeps_rank h = (\<forall>s. admin_session (snd (h s)) \<longrightarrow> admin_session s)"

section \<open>A sample installation\<close>

text \<open>
  One environment and one database to run the handlers on. The database reads ids as
  32-bit integers in decimal, blanks allowed around them, as PostgreSQL up to version 15
  does (later versions also read other bases and underscores); the password functions are
  stand-ins for bcryptjs. The general statements below quantify over the environment.
\<close>

definition int4_in :: "string \<Rightarrow> int option" where
  "int4_in t =
     (let blank = (\<lambda>c. (of_char c :: int) \<in> set [9, 10, 11, 12, 13, 32]);
          S = dropWhile blank t;
          neg = (case S of [] \<Rightarrow> False | c # _ \<Rightarrow> c = CHR ''-'');
          S1 = (case S of [] \<Rightarrow> []
                | c # cs \<Rightarrow> if c = CHR ''+'' \<or> c = CHR ''-'' then cs else S);
          Z = takeWhile (is_digit 10) S1;
          rest = dropWhile blank (dropWhile (is_digit 10) S1);
          v = (if neg then - mathInt 10 Z else mathInt 10 Z)
      in if Z = [] \<or> rest \<noteq> [] \<or> v < - (2 ^ 31) \<or> 2 ^ 31 \<le> v then None else Some v)"

definition stub_hash :: "string \<Rightarrow> string" where
  "stub_hash p = ''$2a$10$'' @ p"

definition stub_compare :: "string \<Rightarrow> string \<Rightarrow> bool" where
  "stub_compare p h = (h = stub_hash p)"

definition env0 :: env where
  "env0 = \<lparr>id_in = int4_in, bcrypt_hash = stub_hash, bcrypt_compare = stub_compare,
           cascade = False, status_default = Some ''pending''\<rparr>"

definition alice :: user where
  "alice = \<lparr>u_id = 1, u_username = ''alice'', u_email = ''alice@example.com'',
            u_password = stub_hash ''wonderland'', u_role = ''admin''\<rparr>"

definition bob :: user where
  "bob = \<lparr>u_id = 2, u_username = ''bob'', u_email = ''bob@example.com'',
          u_password = stub_hash ''builder1'', u_role = ''user''\<rparr>"

definition carol :: user where
  "carol = \<lparr>u_id = 3, u_username = ''carol'', u_email = ''carol@example.com'',
            u_password = stub_hash ''singing'', u_role = ''user''\<rparr>"

definition blog7 :: blog where
  "blog7 = \<lparr>b_id = 7, b_user_id = 2, b_title = Some ''Hello'', b_content = Some ''World'',
            b_status = Some ''pending'', b_created_at = 10\<rparr>"

definition blog12 :: blog where
  "blog12 = \<lparr>b_id = 12, b_user_id = 3, b_title = Some ''Notes'', b_content = Some ''Text'',
             b_status = Some ''pending'', b_created_at = 11\<rparr>"

definition db0 :: database where
  "db0 = \<lparr>users = [alice, bob, carol], blogs = [blog7, blog12],
          contact_messages =
            [\<lparr>m_id = 1, m_name = ''Dan'', m_email = ''dan@example.com'',
              m_message = ''Hi'', m_created_at = 5\<rparr>],
          user_seq = 4, blog_seq = 13, message_seq = 2, clock = 20,
          faults = [], issued = []\<rparr>"

definition anonymous :: state where
  "anonymous = \<lparr>db = db0, sess = empty_session\<rparr>"

definition as_bob :: state where
  "as_bob = \<lparr>db = db0,
             sess = \<lparr>s_user = Some \<lparr>i_id = 2, i_username = ''bob'', i_email = None, i_role = None\<rparr>,
                     flash_error = [], flash_success = []\<rparr>\<rparr>"

definition as_admin :: state where
  "as_admin = \<lparr>db = db0,
               sess = \<lparr>s_user = Some \<lparr>i_id = 1, i_username = ''alice'',
                                       i_email = Some ''alice@example.com'', i_role = Some ''admin''\<rparr>,
                       flash_error = [], flash_success = []\<rparr>\<rparr>"

text \<open>The sample database with its connection lost.\<close>

definition db_down :: state where
  "db_down = anonymous\<lparr>db := db0\<lparr>faults := [Some ''Connection terminated unexpectedly'']\<rparr>\<rparr>"

section \<open>Identifier validation\<close>

lemma validateId_not_integer: "\<not> isInteger x \<Longrightarrow> \<not> validateId x"
proof (cases x)
  case NaN
  show ?thesis unfolding NaN by code_simp
next
  case (Fin n)
  assume "\<not> isInteger x"
  with Fin show ?thesis by (simp add: isInteger_def)
next
  case PosInf
  show ?thesis unfolding PosInf by code_simp
next
  case NegInf
  show ?thesis unfolding NegInf by code_simp
qed

text \<open>
  The other direction: every finite integer passes \<open>validateId\<close>. Its decimal or
  exponent form starts with a digit (after a minus sign for a negative number), is not a
  hexadecimal literal, and \<open>parseInt\<close> reads at most 21 digits from it, which is
  far from overflowing.
\<close>

lemma is_digit_range: "is_digit 10 c \<longleftrightarrow> 48 \<le> (of_char c :: int) \<and> (of_char c :: int) \<le> 57"
  by (auto simp: is_digit_def digit_of_def Let_def)

lemma digit_val_range: "is_digit 10 c \<Longrightarrow> 0 \<le> digit_val c \<and> digit_val c \<le> 9"
  by (auto simp: is_digit_def digit_val_def digit_of_def Let_def split: if_splits)

lemma of_char_digit: "0 \<le> n \<Longrightarrow> n < 10 \<Longrightarrow> (of_char (char_of (48 + n)) :: int) = 48 + n"
  by (simp add: of_char_of)

lemma digit_not_special:
  assumes "is_digit 10 c"
  shows "\<not> is_js_space c" and "c \<noteq> CHR ''-''" and "c \<noteq> CHR ''+''"
    and "c \<noteq> CHR ''x''" and "c \<noteq> CHR ''X''"
  using assms by (auto simp: is_digit_range is_js_space_def)

lemma mark_not_digit: "\<not> is_digit 10 CHR ''.''" "\<not> is_digit 10 CHR ''e''"
  by (simp_all add: is_digit_range)

lemma bitlen_bound: "m < 2 ^ k \<Longrightarrow> bitlen m \<le> k"
proof (induction k arbitrary: m)
  case 0
  then show ?case by (simp add: bitlen.simps)
next
  case (Suc k)
  show ?case
  proof (cases "m \<le> 0")
    case True
    then show ?thesis by (simp add: bitlen.simps)
  next
    case False
    from Suc.prems have "m div 2 < 2 ^ k" by simp
    then have "bitlen (m div 2) \<le> k" by (rule Suc.IH)
    with False show ?thesis by (simp add: bitlen.simps [of m])
  qed
qed

lemma round_f64_small:
  assumes "0 \<le> m" and "m < 10 ^ 21"
  shows "round_f64 m \<noteq> None"
proof (cases "m < 2 ^ 53")
  case True
  then show ?thesis by (simp add: round_f64_def)
next
  case False
  define sh where "sh = bitlen m - 53"
  define q where "q = m div 2 ^ sh"
  define q' where "q' = (if 2 ^ (sh - 1) < m mod 2 ^ sh \<or> (m mod 2 ^ sh = 2 ^ (sh - 1) \<and> odd q) then q + 1 else q)"
  have "m < 2 ^ 70" using assms(2) by simp
  then have "bitlen m \<le> 70" by (rule bitlen_bound)
  then have sh: "sh \<le> 17" by (simp add: sh_def)
  have "q \<le> m"
    unfolding q_def using assms(1)
    by (metis div_by_1 int_div_less_self linorder_not_less one_le_power order_le_less one_le_numeral zdiv_mono2 zero_less_one)
  then have q': "q' \<le> 10 ^ 21" and q0: "0 \<le> q'"
    using assms by (auto simp: q'_def q_def pos_imp_zdiv_nonneg_iff)
  have "(2::int) ^ sh \<le> 2 ^ 17"
    using sh by (intro power_increasing) simp_all
  with q' q0 have "q' * 2 ^ sh \<le> 10 ^ 21 * 2 ^ 17"
    by (intro mult_mono) simp_all
  also have "\<dots> < (2::int) ^ 1024" by simp
  finally have "q' * 2 ^ sh < 2 ^ 1024" .
  then have "\<not> 2 ^ 1024 \<le> q' * 2 ^ sh" by simp
  with False show ?thesis
    unfolding round_f64_def Let_def q'_def q_def sh_def by (simp split: if_splits)
qed

lemma mathInt_bound_aux:
  "list_all (is_digit 10) Z \<Longrightarrow> 0 \<le> a \<Longrightarrow>
   0 \<le> foldl (\<lambda>a c. a * 10 + digit_val c) a Z \<and>
   foldl (\<lambda>a c. a * 10 + digit_val c) a Z < (a + 1) * 10 ^ length Z"
proof (induction Z arbitrary: a)
  case Nil
  then show ?case by simp
next
  case (Cons c Z)
  from Cons.prems have c: "0 \<le> digit_val c" "digit_val c \<le> 9" and Z: "list_all (is_digit 10) Z"
    using digit_val_range by auto
  from c Cons.prems(2) have a': "0 \<le> a * 10 + digit_val c" by simp
  from Cons.IH [OF Z a']
  have "0 \<le> foldl (\<lambda>a c. a * 10 + digit_val c) (a * 10 + digit_val c) Z"
    and lt: "foldl (\<lambda>a c. a * 10 + digit_val c) (a * 10 + digit_val c) Z
          < (a * 10 + digit_val c + 1) * 10 ^ length Z"
    by simp_all
  moreover have le: "(a * 10 + digit_val c + 1) * 10 ^ length Z \<le> ((a + 1) * 10) * 10 ^ length Z"
    using c by (intro mult_right_mono) simp_all
  moreover from lt le
  have "foldl (\<lambda>a c. a * 10 + digit_val c) (a * 10 + digit_val c) Z < ((a + 1) * 10) * 10 ^ length Z"
    by (rule order_less_le_trans)
  ultimately show ?case by (simp add: algebra_simps)
qed

lemma mathInt_bound:
  "list_all (is_digit 10) Z \<Longrightarrow> 0 \<le> mathInt 10 Z \<and> mathInt 10 Z < 10 ^ length Z"
  using mathInt_bound_aux [of Z 0] by (simp add: mathInt_def)

lemma digits_of_digits: "0 \<le> n \<Longrightarrow> digits_of n \<noteq> [] \<and> list_all (is_digit 10) (digits_of n)"
proof (induction n rule: digits_of.induct)
  case (1 n)
  show ?case
  proof (cases "n < 10")
    case True
    with "1.prems" show ?thesis
      by (simp add: digits_of.simps [of n] is_digit_range of_char_digit)
  next
    case False
    then have "0 \<le> n div 10" by simp
    with False "1.IH" have "list_all (is_digit 10) (digits_of (n div 10))" by simp
    moreover have "is_digit 10 (char_of (48 + n mod 10))"
      by (simp add: is_digit_range of_char_digit)
    ultimately show ?thesis
      using False by (simp add: digits_of.simps [of n])
  qed
qed

lemma digits_of_leading: "0 < n \<Longrightarrow> hd (digits_of n) \<noteq> CHR ''0''"
proof (induction n rule: digits_of.induct)
  case (1 n)
  show ?case
  proof (cases "n < 10")
    case True
    have "(of_char (char_of (48 + n)) :: int) \<noteq> of_char CHR ''0''"
      using True "1.prems" by (simp add: of_char_digit)
    then have "char_of (48 + n) \<noteq> CHR ''0''"
      by (metis (no_types))
    with True show ?thesis by (simp add: digits_of.simps [of n])
  next
    case False
    then have pos: "0 < n div 10" by simp
    with False "1.IH" have "hd (digits_of (n div 10)) \<noteq> CHR ''0''" by simp
    moreover have "digits_of (n div 10) \<noteq> []"
      using pos digits_of_digits [of "n div 10"] by simp
    ultimately show ?thesis
      using False by (simp add: digits_of.simps [of n])
  qed
qed

lemma digits_of_long: "1 < length (digits_of n) \<Longrightarrow> 10 \<le> n"
  by (cases "n < 10") (simp_all add: digits_of.simps [of n])

lemma shortest_nonneg: "0 \<le> x \<Longrightarrow> 0 \<le> shortest x e"
proof (induction e)
  case 0
  then show ?case by simp
next
  case (Suc e)
  have "0 \<le> (x div 10 ^ Suc e) * 10 ^ Suc e"
    using Suc.prems by (simp add: pos_imp_zdiv_nonneg_iff)
  with Suc show ?case
    by (simp add: Let_def del: power_Suc)
qed

lemma strip_zeros_keeps_head:
  assumes "d \<noteq> z"
  shows "\<exists>r. rev (dropWhile (\<lambda>c. c = z) (rev (d # rest))) = d # r"
proof -
  have "dropWhile (\<lambda>c. c = z) (rev rest @ [d]) = [d] \<or>
        dropWhile (\<lambda>c. c = z) (rev rest @ [d]) = dropWhile (\<lambda>c. c = z) (rev rest) @ [d]"
    using assms by (simp add: dropWhile_append)
  then show ?thesis
  proof
    assume "dropWhile (\<lambda>c. c = z) (rev rest @ [d]) = [d]"
    then have "rev (dropWhile (\<lambda>c. c = z) (rev (d # rest))) = d # []" by simp
    then show ?thesis ..
  next
    assume "dropWhile (\<lambda>c. c = z) (rev rest @ [d]) = dropWhile (\<lambda>c. c = z) (rev rest) @ [d]"
    then have "rev (dropWhile (\<lambda>c. c = z) (rev (d # rest))) =
        d # rev (dropWhile (\<lambda>c. c = z) (rev rest))" by simp
    then show ?thesis ..
  qed
qed

lemma parseInt_digits:
  assumes "is_digit 10 c" and "take 1 cs \<noteq> ''x''" and "take 1 cs \<noteq> ''X''"
  shows "parseInt (c # cs) = to_number False (mathInt 10 (c # takeWhile (is_digit 10) cs))"
    and "parseInt (CHR ''-'' # c # cs) = to_number True (mathInt 10 (c # takeWhile (is_digit 10) cs))"
proof -
  have minus: "\<not> is_js_space CHR ''-''" by (simp add: is_js_space_def)
  show "parseInt (c # cs) = to_number False (mathInt 10 (c # takeWhile (is_digit 10) cs))"
    using assms digit_not_special [OF assms(1)]
    by (simp add: parseInt_def Let_def)
  show "parseInt (CHR ''-'' # c # cs) = to_number True (mathInt 10 (c # takeWhile (is_digit 10) cs))"
    using assms minus
    by (simp add: parseInt_def Let_def)
qed

lemma posToString_plain:
  assumes "x \<noteq> 0" and "length (digits_of (shortest x (length (digits_of x) - 1))) \<le> 21"
  shows "posToString x = digits_of (shortest x (length (digits_of x) - 1))"
  using assms by (simp add: posToString_def Let_def)

lemma posToString_exponent:
  assumes "x \<noteq> 0" and "\<not> length (digits_of (shortest x (length (digits_of x) - 1))) \<le> 21"
  shows "posToString x =
     (case rev (dropWhile (\<lambda>c. c = CHR ''0'') (rev (digits_of (shortest x (length (digits_of x) - 1))))) of
        [] \<Rightarrow> [] | [d] \<Rightarrow> [d] | d # rest \<Rightarrow> d # ''.'' @ rest)
     @ ''e+'' @ digits_of (int (length (digits_of (shortest x (length (digits_of x) - 1)))) - 1)"
  using assms by (simp add: posToString_def Let_def)

lemma posToString_shape:
  assumes "0 \<le> x"
  shows "\<exists>c cs. posToString x = c # cs \<and> is_digit 10 c \<and> take 1 cs \<noteq> ''x'' \<and> take 1 cs \<noteq> ''X'' \<and>
           list_all (is_digit 10) (takeWhile (is_digit 10) cs) \<and>
           length (takeWhile (is_digit 10) cs) < 21"
proof (cases "x = 0")
  case True
  have zero: "is_digit 10 CHR ''0''" by (simp add: is_digit_range)
  have "posToString x = CHR ''0'' # []" by (simp add: True posToString_def)
  then have "posToString x = CHR ''0'' # [] \<and> is_digit 10 CHR ''0'' \<and> take 1 [] \<noteq> ''x'' \<and>
      take 1 [] \<noteq> ''X'' \<and> list_all (is_digit 10) (takeWhile (is_digit 10) []) \<and>
      length (takeWhile (is_digit 10) ([] :: string)) < 21"
    using zero by simp
  then show ?thesis by blast
next
  case False
  define v where "v = shortest x (length (digits_of x) - 1)"
  have v: "0 \<le> v" unfolding v_def using assms by (rule shortest_nonneg)
  then have ds: "digits_of v \<noteq> []" "list_all (is_digit 10) (digits_of v)"
    using digits_of_digits by simp_all
  then obtain c cs where split: "digits_of v = c # cs"
    by (cases "digits_of v") auto
  with ds have c: "is_digit 10 c" and cs: "list_all (is_digit 10) cs" by simp_all
  show ?thesis
  proof (cases "length (digits_of v) \<le> 21")
    case True
    have marks: "take 1 cs \<noteq> ''x''" "take 1 cs \<noteq> ''X''"
      using cs digit_not_special(4,5) by (cases cs; auto)+
    have tw: "takeWhile (is_digit 10) cs = cs"
      using cs by (simp add: list_all_iff)
    have len: "length cs < 21"
      using True split by simp
    have "posToString x = digits_of v"
      unfolding v_def using False True [unfolded v_def] by (rule posToString_plain)
    then have pts: "posToString x = c # cs"
      by (simp only: split)
    have "posToString x = c # cs \<and> is_digit 10 c \<and> take 1 cs \<noteq> ''x'' \<and> take 1 cs \<noteq> ''X'' \<and>
           list_all (is_digit 10) (takeWhile (is_digit 10) cs) \<and>
           length (takeWhile (is_digit 10) cs) < 21"
      unfolding tw using pts c marks cs len by (intro conjI)
    then show ?thesis by blast
  next
    case long: False
    then have "10 \<le> v" by (intro digits_of_long) simp
    then have "hd (digits_of v) \<noteq> CHR ''0''" by (intro digits_of_leading) simp
    then have "c \<noteq> CHR ''0''" by (simp add: split)
    then have "\<exists>r. rev (dropWhile (\<lambda>c. c = CHR ''0'') (rev (c # cs))) = c # r"
      by (rule strip_zeros_keeps_head)
    then obtain r where r: "rev (dropWhile (\<lambda>c. c = CHR ''0'') (rev (c # cs))) = c # r" ..
    have "posToString x =
       (case rev (dropWhile (\<lambda>c. c = CHR ''0'') (rev (digits_of v))) of
          [] \<Rightarrow> [] | [d] \<Rightarrow> [d] | d # rest \<Rightarrow> d # ''.'' @ rest)
       @ ''e+'' @ digits_of (int (length (digits_of v)) - 1)"
      unfolding v_def using False long [unfolded v_def] by (rule posToString_exponent)
    then have "posToString x =
       (case c # r of [] \<Rightarrow> [] | [d] \<Rightarrow> [d] | d # rest \<Rightarrow> d # ''.'' @ rest)
       @ ''e+'' @ digits_of (int (length (digits_of v)) - 1)"
      by (simp only: split r)
    then obtain t where t: "posToString x = c # t" "take 1 t = ''.'' \<or> take 1 t = ''e''"
      by (cases r) simp_all
    from t(2) have none: "takeWhile (is_digit 10) t = []"
      using mark_not_digit by (cases t) auto
    have "posToString x = c # t \<and> is_digit 10 c \<and> take 1 t \<noteq> ''x'' \<and> take 1 t \<noteq> ''X'' \<and>
           list_all (is_digit 10) (takeWhile (is_digit 10) t) \<and>
           length (takeWhile (is_digit 10) t) < 21"
      unfolding none using t c by auto
    then show ?thesis by blast
  qed
qed

lemma isInteger_to_number: "round_f64 m \<noteq> None \<Longrightarrow> isInteger (to_number neg m)"
  by (auto simp: to_number_def isInteger_def)

lemma validateId_finite: "validateId (Fin n)"
proof -
  define x where "x = (if n < 0 then - n else n)"
  have "0 \<le> x" by (simp add: x_def)
  then obtain c cs where shape: "posToString x = c # cs" "is_digit 10 c"
      "take 1 cs \<noteq> ''x''" "take 1 cs \<noteq> ''X''"
      "list_all (is_digit 10) (takeWhile (is_digit 10) cs)"
      "length (takeWhile (is_digit 10) cs) < 21"
    using posToString_shape by blast
  let ?Z = "c # takeWhile (is_digit 10) cs"
  have "list_all (is_digit 10) ?Z" using shape(2,5) by simp
  then have "0 \<le> mathInt 10 ?Z" and "mathInt 10 ?Z < 10 ^ length ?Z"
    using mathInt_bound by blast+
  moreover have "(10::int) ^ length ?Z \<le> 10 ^ 21"
    using shape(6) by (intro power_increasing) simp_all
  ultimately have "round_f64 (mathInt 10 ?Z) \<noteq> None"
    by (intro round_f64_small) simp_all
  then have "isInteger (to_number (n < 0) (mathInt 10 ?Z))"
    by (rule isInteger_to_number)
  moreover have "parseInt (numToString (Fin n)) = to_number (n < 0) (mathInt 10 ?Z)"
    using parseInt_digits [OF shape(2,3,4)] shape(1) [unfolded x_def]
    by (cases "n < 0") (simp_all add: numToString_def)
  ultimately show ?thesis by (simp add: validateId_def)
qed

lemma validateId_iff: "validateId x \<longleftrightarrow> isInteger x"
  using validateId_not_integer [of x] validateId_finite
  by (cases x) (auto simp: isInteger_def)

lemma view_get_400_iff:
  "status (fst (app e (GetView i) s)) = 400 \<longleftrightarrow> \<not> isInteger (parseInt i)"
  by (simp add: app_def global_locals_def view_get_def invalid_blog_id_def validateId_iff
      server_error_def render_def Let_def split: prod.splits sum.splits list.splits)

text \<open>
  C1, as the code has it. The three public routes that call \<open>validateId\<close> (GET /view/:id,
  and behind the login gate GET /edit/:id and POST /delete/:id) answer 400 with the
  "Invalid blog ID" page, and leave the database as it was with no statement issued,
  whenever \<open>parseInt\<close> of the id is not a finite integer: the id has no leading digits
  after optional white space and sign, or it overflows to Infinity.
\<close>

theorem malformed_id_rejected_before_query:
  assumes "\<not> isInteger (parseInt i)"
    and "r = GetView i \<or> (s_user (sess s) \<noteq> None \<and> (r = GetEdit i \<or> r = PostDelete i))"
  shows "status (fst (app e r s)) = 400 \<and>
         reply (fst (app e r s)) = Render ''error'' [(''message'', VStr ''Invalid blog ID'')] \<and>
         db (snd (app e r s)) = db s"
proof -
  have bad: "\<not> validateId (parseInt i)"
    using assms(1) by (rule validateId_not_integer)
  from assms(2) consider "r = GetView i"
    | "s_user (sess s) \<noteq> None" "r = GetEdit i"
    | "s_user (sess s) \<noteq> None" "r = PostDelete i"
    by blast
  then show ?thesis
  proof cases
    case 1
    with bad show ?thesis
      by (simp add: app_def global_locals_def view_get_def invalid_blog_id_def)
  next
    case 2
    with bad show ?thesis
      by (simp add: app_def global_locals_def checkAuth_def edit_get_def invalid_blog_id_def)
  next
    case 3
    with bad show ?thesis
      by (simp add: app_def global_locals_def checkAuth_def delete_post_def invalid_blog_id_def)
  qed
qed

theorem malformed_id_rejected_before_query_witness:
  "\<not> isInteger (parseInt ''abc'') \<and> s_user (sess as_bob) \<noteq> None \<and>
   status (fst (app env0 (GetEdit ''abc'') as_bob)) = 400 \<and>
   reply (fst (app env0 (GetEdit ''abc'') as_bob)) =
     Render ''error'' [(''message'', VStr ''Invalid blog ID'')] \<and>
   db (snd (app env0 (GetEdit ''abc'') as_bob)) = db as_bob"
proof -
  have h1: "\<not> isInteger (parseInt ''abc'')" by code_simp
  have h2: "s_user (sess as_bob) \<noteq> None" by (simp add: as_bob_def)
  from malformed_id_rejected_before_query [of "''abc''" "GetEdit ''abc''" as_bob env0] h1 h2
  show ?thesis by simp
qed

text \<open>
  C1 as the specification words it fails: \<open>12abc\<close> is not a base-10 integer string, yet
  GET /view/12abc queries for blog 12 and renders it with status 200.
\<close>

theorem view_accepts_12abc_counterexample:
  "\<not> base10_integer_string ''12abc'' \<and>
   status (fst (app env0 (GetView ''12abc'') anonymous)) = 200 \<and>
   issued (db (snd (app env0 (GetView ''12abc'') anonymous))) =
     [(''SELECT blogs.*, users.username FROM blogs JOIN users ON blogs.user_id = users.id WHERE blogs.id=$1'',
       [Some ''12''])]"
  by code_simp

text \<open>
  C2 at POST /edit/abc with a title and a content, sent by a logged-in user: the handler
  has no id check (GET /edit/:id and POST /delete/:id have one), so it issues the UPDATE
  with the id NaN; the sample database rejects that and the answer is the 500 error page,
  not 400.
\<close>

theorem edit_post_abc_not_rejected:
  "status (fst (app env0 (PostEdit ''abc'' [(''title'', ''T''), (''content'', ''C'')]) as_bob)) = 500 \<and>
   issued (db (snd (app env0 (PostEdit ''abc'' [(''title'', ''T''), (''content'', ''C'')]) as_bob))) =
     [(''UPDATE blogs SET title=$1, content=$2 WHERE id=$3 AND user_id=$4'',
       [Some ''T'', Some ''C'', Some ''NaN'', Some ''2''])]"
  by code_simp

text \<open>Whatever the id, the body, the session and the database: POST /edit/:id never answers 400.\<close>

lemma edit_post_never_400: "status (fst (app e (PostEdit i body) s)) \<noteq> 400"
  by (simp add: app_def global_locals_def checkAuth_def edit_post_def redirect_def server_error_def
      flash_err_def flash_ok_def Let_def split: prod.splits sum.splits option.splits)

section \<open>The persistence layer under the handlers\<close>

lemma pool_query_rejected:
  "rejects_next d \<Longrightarrow> \<exists>m. pool_query sql ps run d = (Inl m, sent sql ps d)"
  by (auto simp: rejects_next_def pool_query_def sent_def Let_def split: list.splits option.splits)

lemma pool_query_accepted:
  "\<not> rejects_next d \<Longrightarrow>
   pool_query sql ps run d =
     (case run (sent sql ps d) of
        Inl m \<Rightarrow> (Inl m, sent sql ps d)
      | Inr (r, d') \<Rightarrow> (Inr r, d'))"
  by (auto simp: rejects_next_def pool_query_def sent_def Let_def
      split: list.splits option.splits sum.splits prod.splits)

lemma sent_fields [simp]:
  "users (sent sql ps d) = users d"
  "blogs (sent sql ps d) = blogs d"
  "contact_messages (sent sql ps d) = contact_messages d"
  "issued (sent sql ps d) = issued d @ [(sql, ps)]"
  "user_seq (sent sql ps d) = user_seq d"
  "blog_seq (sent sql ps d) = blog_seq d"
  "message_seq (sent sql ps d) = message_seq d"
  "clock (sent sql ps d) = clock d"
  by (simp_all add: sent_def)

lemma same_tables_sent [simp]: "same_tables d (sent sql ps d)"
  by (simp add: same_tables_def)

lemma same_tables_refl [simp]: "same_tables d d"
  by (simp add: same_tables_def)

lemmas app_simps = app_def global_locals_def Let_def redirect_def render_def
  flash_err_def flash_ok_def server_error_def send_def

section \<open>Editing a blog through the public route\<close>

text \<open>
  The rest of C2 holds: with a title and a content, an id the database reads as \<open>k\<close>
  and a database that accepts the statement, POST /edit/:id rewrites the title and the
  content of the rows with id \<open>k\<close> that belong to the session user, enqueues the
  success flash and redirects to /dashboard.
\<close>

lemma q_update_own_blog_accepted:
  "\<not> rejects_next d \<Longrightarrow> id_in e t = Some k \<Longrightarrow>
   q_update_own_blog e title content t uid d =
     (Inr (), (sent ''UPDATE blogs SET title=$1, content=$2 WHERE id=$3 AND user_id=$4''
                 [Some title, Some content, Some t, Some (num_text uid)] d)
                \<lparr>blogs := map (\<lambda>b. if b_id b = k \<and> b_user_id b = uid
                                      then b\<lparr>b_title := Some title, b_content := Some content\<rparr>
                                      else b) (blogs d)\<rparr>)"
  by (simp add: q_update_own_blog_def pool_query_accepted with_id_def)

lemma edit_post_updates_own_rows:
  assumes "s_user (sess s) = Some a"
    and "field body ''title'' = Some title" and "title \<noteq> []"
    and "field body ''content'' = Some content" and "content \<noteq> []"
    and "id_in e (numToString (parseInt i)) = Some k"
    and "\<not> rejects_next (db s)"
  shows "status (fst (app e (PostEdit i body) s)) = 302"
    and "reply (fst (app e (PostEdit i body) s)) = Redirect ''/dashboard''"
    and "flash_success (sess (snd (app e (PostEdit i body) s))) = [''Blog updated successfully'']"
    and "blogs (db (snd (app e (PostEdit i body) s))) =
           map (\<lambda>b. if b_id b = k \<and> b_user_id b = i_id a
                    then b\<lparr>b_title := Some title, b_content := Some content\<rparr> else b)
               (blogs (db s))"
  using assms
  by (simp_all add: app_simps checkAuth_def edit_post_def falsy_def str_def
      q_update_own_blog_accepted)

section \<open>Public login\<close>

lemma q_users_by_email_accepted:
  "\<not> rejects_next d \<Longrightarrow>
   q_users_by_email em d =
     (Inr (filter (\<lambda>u. u_email u = em) (users d)), sent ''SELECT * FROM users WHERE email=$1'' [Some em] d)"
  by (simp add: q_users_by_email_def pool_query_accepted)

text \<open>
  C5. A POST /login whose email and password are both filled in, whose email belongs to
  a user, and whose password the hash verification refuses for that user: when the
  database answers the lookup, the response is a redirect to /login, the error flash
  queue holds exactly "Incorrect password", and the identity bound to the session is what
  it was before (none stays none); no table changes.
\<close>

theorem wrong_password_login:
  assumes "field body ''email'' = Some em" and "em \<noteq> []"
    and "field body ''password'' = Some pw" and "pw \<noteq> []"
    and "\<not> rejects_next (db s)"
    and "\<exists>u\<in>set (users (db s)). u_email u = em"
    and "\<forall>u\<in>set (users (db s)). u_email u = em \<longrightarrow> \<not> bcrypt_compare e pw (u_password u)"
  shows "status (fst (app e (PostLogin body) s)) = 302 \<and>
         reply (fst (app e (PostLogin body) s)) = Redirect ''/login'' \<and>
         flash_error (sess (snd (app e (PostLogin body) s))) = [''Incorrect password''] \<and>
         flash_success (sess (snd (app e (PostLogin body) s))) = [] \<and>
         s_user (sess (snd (app e (PostLogin body) s))) = s_user (sess s) \<and>
         same_tables (db s) (db (snd (app e (PostLogin body) s)))"
proof -
  from assms(6) have "filter (\<lambda>u. u_email u = em) (users (db s)) \<noteq> []"
    by (auto simp: filter_empty_conv)
  then obtain u rest where rows: "filter (\<lambda>u. u_email u = em) (users (db s)) = u # rest"
    by (cases "filter (\<lambda>u. u_email u = em) (users (db s))") auto
  then have "u \<in> set (filter (\<lambda>u. u_email u = em) (users (db s)))"
    by simp
  then have "u \<in> set (users (db s))" and "u_email u = em"
    by auto
  with assms(7) have wrong: "\<not> bcrypt_compare e pw (u_password u)"
    by blast
  show ?thesis
    using assms(1-5) rows wrong
    by (simp add: app_simps login_post_def falsy_def str_def q_users_by_email_accepted)
qed

theorem wrong_password_login_witness:
  "field [(''email'', ''alice@example.com''), (''password'', ''wonderlan'')] ''email'' = Some ''alice@example.com'' \<and>
   field [(''email'', ''alice@example.com''), (''password'', ''wonderlan'')] ''password'' = Some ''wonderlan'' \<and>
   \<not> rejects_next (db anonymous) \<and>
   filter (\<lambda>u. u_email u = ''alice@example.com'') (users (db anonymous)) = [alice] \<and>
   \<not> bcrypt_compare env0 ''wonderlan'' (u_password alice) \<and>
   reply (fst (app env0 (PostLogin [(''email'', ''alice@example.com''), (''password'', ''wonderlan'')]) anonymous)) =
     Redirect ''/login'' \<and>
   flash_error (sess (snd (app env0 (PostLogin [(''email'', ''alice@example.com''), (''password'', ''wonderlan'')]) anonymous))) =
     [''Incorrect password''] \<and>
   s_user (sess (snd (app env0 (PostLogin [(''email'', ''alice@example.com''), (''password'', ''wonderlan'')]) anonymous))) =
     s_user (sess anonymous) \<and>
   s_user (sess anonymous) = None"
proof -
  let ?body = "[(''email'', ''alice@example.com''), (''password'', ''wonderlan'')]"
  have h1: "field ?body ''email'' = Some ''alice@example.com''"
    by code_simp
  have h2: "''alice@example.com'' \<noteq> []" by simp
  have h3: "field ?body ''password'' = Some ''wonderlan''"
    by code_simp
  have h4: "''wonderlan'' \<noteq> []" by simp
  have h5: "\<not> rejects_next (db anonymous)" by code_simp
  have rows: "filter (\<lambda>u. u_email u = ''alice@example.com'') (users (db anonymous)) = [alice]"
    by code_simp
  have wrong: "\<not> bcrypt_compare env0 ''wonderlan'' (u_password alice)" by code_simp
  have h6: "\<exists>u\<in>set (users (db anonymous)). u_email u = ''alice@example.com''" by code_simp
  have h7: "\<forall>u\<in>set (users (db anonymous)). u_email u = ''alice@example.com'' \<longrightarrow>
       \<not> bcrypt_compare env0 ''wonderlan'' (u_password u)" by code_simp
  have h8: "s_user (sess anonymous) = None" by code_simp
  note t = wrong_password_login [OF h1 h2 h3 h4 h5 h6 h7]
  from t have c1: "reply (fst (app env0 (PostLogin ?body) anonymous)) = Redirect ''/login''"
    by blast
  from t have c2: "flash_error (sess (snd (app env0 (PostLogin ?body) anonymous))) = [''Incorrect password'']"
    by blast
  from t have c3: "s_user (sess (snd (app env0 (PostLogin ?body) anonymous))) = s_user (sess anonymous)"
    by blast
  show ?thesis
    by (intro conjI h1 h3 h5 rows wrong c1 c2 c3 h8)
qed

section \<open>Deleting a blog through the public route\<close>

lemma q_delete_own_blog_rejected:
  "rejects_next d \<Longrightarrow>
   \<exists>m. q_delete_own_blog e t uid d =
     (Inl m, sent ''DELETE FROM blogs WHERE id=$1 AND user_id=$2'' [Some t, Some (num_text uid)] d)"
  unfolding q_delete_own_blog_def by (rule pool_query_rejected)

lemma q_delete_own_blog_accepted:
  "\<not> rejects_next d \<Longrightarrow> id_in e t = Some k \<Longrightarrow>
   q_delete_own_blog e t uid d =
     (Inr (), (sent ''DELETE FROM blogs WHERE id=$1 AND user_id=$2'' [Some t, Some (num_text uid)] d)
                \<lparr>blogs := filter (\<lambda>b. \<not> (b_id b = k \<and> b_user_id b = uid)) (blogs d)\<rparr>)"
  by (simp add: q_delete_own_blog_def pool_query_accepted with_id_def)

lemma filter_foreign:
  "\<forall>b\<in>set bs. b_id b = k \<longrightarrow> b_user_id b \<noteq> uid \<Longrightarrow>
   filter (\<lambda>b. \<not> (b_id b = k \<and> b_user_id b = uid)) bs = bs"
  by (induction bs) auto

lemma delete_response_ignores_blogs:
  "fst (app e (PostDelete i) (s\<lparr>db := (db s)\<lparr>blogs := bs\<rparr>\<rparr>)) = fst (app e (PostDelete i) s)"
  by (simp add: app_simps checkAuth_def delete_post_def q_delete_own_blog_def pool_query_def
      with_id_def session_user_def invalid_blog_id_def
      split: option.splits list.splits)

text \<open>
  C6. A logged-in user A posts /delete/:id with an id that \<open>parseInt\<close> reads as an
  integer and the database as \<open>k\<close>, and no blog with id \<open>k\<close> belongs to A. Then no table changes; the one
  statement issued is the DELETE whose predicate carries both the id and A's id; and
  unless the database rejects the statement, the response is the redirect to /dashboard
  with the success flash "Blog deleted successfully". The response does not depend on the
  blogs table at all, so it is the response of a delete that removed a row.
\<close>

theorem delete_foreign_blog_silent_noop:
  assumes "s_user (sess s) = Some a"
    and "isInteger (parseInt i)"
    and "id_in e (numToString (parseInt i)) = Some k"
    and "\<forall>b\<in>set (blogs (db s)). b_id b = k \<longrightarrow> b_user_id b \<noteq> i_id a"
  shows "same_tables (db s) (db (snd (app e (PostDelete i) s))) \<and>
         issued (db (snd (app e (PostDelete i) s))) =
           issued (db s) @ [(''DELETE FROM blogs WHERE id=$1 AND user_id=$2'',
                             [Some (numToString (parseInt i)), Some (num_text (i_id a))])] \<and>
         (\<not> rejects_next (db s) \<longrightarrow>
            status (fst (app e (PostDelete i) s)) = 302 \<and>
            reply (fst (app e (PostDelete i) s)) = Redirect ''/dashboard'' \<and>
            flash_success (sess (snd (app e (PostDelete i) s))) = [''Blog deleted successfully''] \<and>
            flash_error (sess (snd (app e (PostDelete i) s))) = []) \<and>
         fst (app e (PostDelete i) (s\<lparr>db := (db s)\<lparr>blogs := bs\<rparr>\<rparr>)) = fst (app e (PostDelete i) s)"
proof (cases "rejects_next (db s)")
  case True
  then obtain m where
    "q_delete_own_blog e (numToString (parseInt i)) (i_id a) (db s) =
       (Inl m, sent ''DELETE FROM blogs WHERE id=$1 AND user_id=$2''
                 [Some (numToString (parseInt i)), Some (num_text (i_id a))] (db s))"
    using q_delete_own_blog_rejected by blast
  with True assms(1,2) show ?thesis
    by (simp add: delete_response_ignores_blogs)
       (simp add: app_simps checkAuth_def delete_post_def validateId_iff)
next
  case False
  with assms show ?thesis
    by (simp add: delete_response_ignores_blogs)
       (simp add: app_simps checkAuth_def delete_post_def q_delete_own_blog_accepted
        filter_foreign same_tables_def validateId_iff)
qed

theorem delete_foreign_blog_silent_noop_witness:
  "s_user (sess as_bob) = Some \<lparr>i_id = 2, i_username = ''bob'', i_email = None, i_role = None\<rparr> \<and>
   isInteger (parseInt ''12'') \<and>
   id_in env0 (numToString (parseInt ''12'')) = Some 12 \<and>
   filter (\<lambda>b. b_id b = 12) (blogs (db as_bob)) = [blog12] \<and> b_user_id blog12 = 3 \<and>
   \<not> rejects_next (db as_bob) \<and>
   same_tables (db as_bob) (db (snd (app env0 (PostDelete ''12'') as_bob))) \<and>
   status (fst (app env0 (PostDelete ''12'') as_bob)) = 302 \<and>
   reply (fst (app env0 (PostDelete ''12'') as_bob)) = Redirect ''/dashboard'' \<and>
   flash_success (sess (snd (app env0 (PostDelete ''12'') as_bob))) = [''Blog deleted successfully'']"
proof -
  have h1: "s_user (sess as_bob) = Some \<lparr>i_id = 2, i_username = ''bob'', i_email = None, i_role = None\<rparr>"
    by code_simp
  have h2: "isInteger (parseInt ''12'')" by code_simp
  have h3: "id_in env0 (numToString (parseInt ''12'')) = Some 12" by code_simp
  have h4: "\<forall>b\<in>set (blogs (db as_bob)). b_id b = 12 \<longrightarrow>
      b_user_id b \<noteq> i_id \<lparr>i_id = 2, i_username = ''bob'', i_email = None, i_role = None\<rparr>"
    by code_simp
  have rows: "filter (\<lambda>b. b_id b = 12) (blogs (db as_bob)) = [blog12]" by code_simp
  have owner: "b_user_id blog12 = 3" by code_simp
  have h6: "\<not> rejects_next (db as_bob)" by code_simp
  note t = delete_foreign_blog_silent_noop [OF h1 h2 h3 h4, of "[]"]
  from t have c1: "same_tables (db as_bob) (db (snd (app env0 (PostDelete ''12'') as_bob)))"
    by (rule conjunct1)
  from t h6 have c2: "status (fst (app env0 (PostDelete ''12'') as_bob)) = 302"
    and c3: "reply (fst (app env0 (PostDelete ''12'') as_bob)) = Redirect ''/dashboard''"
    and c4: "flash_success (sess (snd (app env0 (PostDelete ''12'') as_bob))) = [''Blog deleted successfully'']"
    by blast+
  show ?thesis
    by (intro conjI h1 h2 h3 rows owner h6 c1 c2 c3 c4)
qed

section \<open>The contact form\<close>

lemma q_insert_contact_rejected:
  "rejects_next d \<Longrightarrow>
   \<exists>m. q_insert_contact n em msg d =
     (Inl m, sent ''INSERT INTO contact_messages (name, email, message) VALUES ($1, $2, $3)''
               [Some n, Some em, Some msg] d)"
  unfolding q_insert_contact_def by (rule pool_query_rejected)

lemma q_insert_contact_accepted:
  "\<not> rejects_next d \<Longrightarrow>
   q_insert_contact n em msg d =
     (Inr (), (sent ''INSERT INTO contact_messages (name, email, message) VALUES ($1, $2, $3)''
                 [Some n, Some em, Some msg] d)
                \<lparr>contact_messages := contact_messages d @
                   [\<lparr>m_id = message_seq d, m_name = n, m_email = em, m_message = msg,
                     m_created_at = clock d\<rparr>],
                 message_seq := message_seq d + 1, clock := clock d + 1\<rparr>)"
  by (simp add: q_insert_contact_def pool_query_accepted)

text \<open>
  The handler of POST /contact on a body that was read: status 200 and a JSON body on each
  of its three paths. A field that the parsers deliver as something other than a string
  acts here as a missing field when it is falsy, and otherwise as the text the driver
  sends for it.
\<close>

lemma contact_post_parsed:
  "status (fst (app e (PostContact body) s)) = 200 \<and>
   reply (fst (app e (PostContact body) s)) =
     (if falsy (field body ''name'') \<or> falsy (field body ''email'') \<or> falsy (field body ''message'')
      then Json [(''success'', VBool False), (''error'', VStr ''All fields are required'')]
      else if rejects_next (db s)
      then Json [(''success'', VBool False), (''error'', VStr ''Server error while sending message'')]
      else Json [(''success'', VBool True), (''message'', VStr ''Message sent successfully!'')]) \<and>
   contact_messages (db (snd (app e (PostContact body) s))) =
     (if falsy (field body ''name'') \<or> falsy (field body ''email'') \<or> falsy (field body ''message'')
         \<or> rejects_next (db s)
      then contact_messages (db s)
      else contact_messages (db s) @
           [\<lparr>m_id = message_seq (db s), m_name = str (field body ''name''),
             m_email = str (field body ''email''), m_message = str (field body ''message''),
             m_created_at = clock (db s)\<rparr>])"
proof (cases "rejects_next (db s)")
  case True
  then obtain m where
    "q_insert_contact (str (field body ''name'')) (str (field body ''email''))
       (str (field body ''message'')) (db s) =
     (Inl m, sent ''INSERT INTO contact_messages (name, email, message) VALUES ($1, $2, $3)''
               [Some (str (field body ''name'')), Some (str (field body ''email'')),
                Some (str (field body ''message''))] (db s))"
    using q_insert_contact_rejected by blast
  with True show ?thesis
    by (simp add: app_simps contact_post_def)
next
  case False
  then show ?thesis
    by (simp add: app_simps contact_post_def q_insert_contact_accepted)
qed

lemma serve_parsed: "serve e (Parsed req) s = app e req s"
  by (simp add: serve_def)

lemma serve_bad_body:
  "serve e (BadBody method path m) s =
     (\<lparr>status = 500,
       reply = Render ''error'' [(''message'', VStr (if m = [] then ''Server Error'' else m))],
       locals = []\<rparr>, s)"
  by (simp add: serve_def server_error_def)

text \<open>
  C3, as the code has it. A POST /contact whose body the parsers have read is answered with
  status 200 and a JSON body: the failure body "All fields are required" when name, email
  or message is missing or empty (nothing is sent to the database); otherwise the failure
  body "Server error while sending message" when the database rejects the insert; and
  \<open>success: true\<close> with its message only when the insert went through, in which case the
  message is the new last row of the table. A POST /contact whose body the parsers refuse
  does not reach the handler: it is answered with status 500 and the error page, and
  nothing changes.
\<close>

theorem contact_post_answers:
  "status (fst (serve e (Parsed (PostContact body)) s)) = 200 \<and>
   reply (fst (serve e (Parsed (PostContact body)) s)) =
     (if falsy (field body ''name'') \<or> falsy (field body ''email'') \<or> falsy (field body ''message'')
      then Json [(''success'', VBool False), (''error'', VStr ''All fields are required'')]
      else if rejects_next (db s)
      then Json [(''success'', VBool False), (''error'', VStr ''Server error while sending message'')]
      else Json [(''success'', VBool True), (''message'', VStr ''Message sent successfully!'')]) \<and>
   contact_messages (db (snd (serve e (Parsed (PostContact body)) s))) =
     (if falsy (field body ''name'') \<or> falsy (field body ''email'') \<or> falsy (field body ''message'')
         \<or> rejects_next (db s)
      then contact_messages (db s)
      else contact_messages (db s) @
           [\<lparr>m_id = message_seq (db s), m_name = str (field body ''name''),
             m_email = str (field body ''email''), m_message = str (field body ''message''),
             m_created_at = clock (db s)\<rparr>]) \<and>
   status (fst (serve e (BadBody ''POST'' ''/contact'' m) s)) = 500 \<and>
   reply (fst (serve e (BadBody ''POST'' ''/contact'' m) s)) =
     Render ''error'' [(''message'', VStr (if m = [] then ''Server Error'' else m))] \<and>
   snd (serve e (BadBody ''POST'' ''/contact'' m) s) = s"
proof -
  have read: "serve e (Parsed (PostContact body)) s = app e (PostContact body) s"
    by (rule serve_parsed)
  have refused: "serve e (BadBody ''POST'' ''/contact'' m) s =
     (\<lparr>status = 500,
       reply = Render ''error'' [(''message'', VStr (if m = [] then ''Server Error'' else m))],
       locals = []\<rparr>, s)"
    by (rule serve_bad_body)
  show ?thesis
    unfolding read refused using contact_post_parsed [of e body s] by simp
qed

theorem contact_post_answers_witness:
  "post_to_contact (Parsed (PostContact [(''name'', ''Eve''), (''email'', ''eve@example.com''), (''message'', ''Hello'')])) \<and>
   rejects_next (db db_down) \<and>
   status (fst (serve env0 (Parsed (PostContact [(''name'', ''Eve''), (''email'', ''eve@example.com''), (''message'', ''Hello'')])) db_down)) = 200 \<and>
   reply (fst (serve env0 (Parsed (PostContact [(''name'', ''Eve''), (''email'', ''eve@example.com''), (''message'', ''Hello'')])) db_down)) =
     Json [(''success'', VBool False), (''error'', VStr ''Server error while sending message'')] \<and>
   contact_messages (db (snd (serve env0 (Parsed (PostContact [(''name'', ''Eve''), (''email'', ''eve@example.com''), (''message'', ''Hello'')])) db_down))) =
     contact_messages db0 \<and>
   status (fst (serve env0 (BadBody ''POST'' ''/contact'' []) db_down)) = 500 \<and>
   reply (fst (serve env0 (BadBody ''POST'' ''/contact'' []) db_down)) =
     Render ''error'' [(''message'', VStr ''Server Error'')]"
proof -
  let ?body = "[(''name'', ''Eve''), (''email'', ''eve@example.com''), (''message'', ''Hello'')]"
  have addressed: "post_to_contact (Parsed (PostContact ?body))" by code_simp
  have down: "rejects_next (db db_down)" by code_simp
  have filled: "\<not> (falsy (field ?body ''name'') \<or> falsy (field ?body ''email'') \<or>
      falsy (field ?body ''message''))"
    by code_simp
  have same: "contact_messages (db db_down) = contact_messages db0" by code_simp
  note t = contact_post_answers [of env0 ?body db_down "[]"]
  from t have c1: "status (fst (serve env0 (Parsed (PostContact ?body)) db_down)) = 200"
    by (rule conjunct1)
  from t down filled
  have c2: "reply (fst (serve env0 (Parsed (PostContact ?body)) db_down)) =
     Json [(''success'', VBool False), (''error'', VStr ''Server error while sending message'')]"
    by simp
  from t down same
  have c3: "contact_messages (db (snd (serve env0 (Parsed (PostContact ?body)) db_down))) =
     contact_messages db0"
    by simp
  from t have c4: "status (fst (serve env0 (BadBody ''POST'' ''/contact'' []) db_down)) = 500"
    by blast
  from t have c5: "reply (fst (serve env0 (BadBody ''POST'' ''/contact'' []) db_down)) =
     Render ''error'' [(''message'', VStr ''Server Error'')]"
    by simp
  show ?thesis
    by (intro conjI addressed down c1 c2 c3 c4 c5)
qed

text \<open>
  C3 as the specification words it fails: a POST /contact with the JSON body \<open>{"name":\<close>,
  which \<open>express.json\<close> refuses, is answered with status 500 and the HTML error page.
\<close>

theorem contact_refused_body_counterexample:
  "post_to_contact (BadBody ''POST'' ''/contact'' ''Unexpected end of JSON input'') \<and>
   status (fst (serve env0 (BadBody ''POST'' ''/contact'' ''Unexpected end of JSON input'') anonymous)) = 500 \<and>
   reply (fst (serve env0 (BadBody ''POST'' ''/contact'' ''Unexpected end of JSON input'') anonymous)) =
     Render ''error'' [(''message'', VStr ''Unexpected end of JSON input'')]"
  by code_simp

section \<open>The two message listings of the admin console\<close>

lemma q_all_messages_accepted:
  "\<not> rejects_next d \<Longrightarrow>
   q_all_messages d =
     (Inr (newest_first m_created_at (contact_messages d)),
      sent ''SELECT * FROM contact_messages ORDER BY created_at DESC'' [] d)"
  by (simp add: q_all_messages_def pool_query_accepted)

lemma newest_first_descending: "sorted (rev (map key (newest_first key xs)))"
  by (simp add: newest_first_def rev_map [symmetric])

lemma newest_first_same_rows: "set (newest_first key xs) = set xs \<and> length (newest_first key xs) = length xs"
  by (simp add: newest_first_def)

text \<open>
  C8. GET /admin/messages and GET /admin/contact-messages are the same function of the
  request and the state, whatever the session. For an admin session and a database that
  answers, both issue the one statement
  \<open>SELECT * FROM contact_messages ORDER BY created_at DESC\<close> and render
  \<open>admin/admin-messages\<close> with all contact messages, newest first.
\<close>

theorem admin_message_routes_equal:
  "app e AdminGetMessages = app e AdminGetContactMessages \<and>
   (admin_session s \<and> \<not> rejects_next (db s) \<longrightarrow>
      status (fst (app e AdminGetMessages s)) = 200 \<and>
      reply (fst (app e AdminGetMessages s)) =
        Render ''admin/admin-messages''
          [(''layout'', VBool False), (''user'', session_user s),
           (''messages'', VMessages (newest_first m_created_at (contact_messages (db s))))] \<and>
      issued (db (snd (app e AdminGetMessages s))) =
        issued (db s) @ [(''SELECT * FROM contact_messages ORDER BY created_at DESC'', [])] \<and>
      sorted (rev (map m_created_at (newest_first m_created_at (contact_messages (db s))))))"
proof -
  have "admin_messages_get = admin_contact_messages_get"
    by (rule ext) (simp add: admin_messages_get_def admin_contact_messages_get_def)
  then have eq: "app e AdminGetMessages = app e AdminGetContactMessages"
    by (intro ext) (simp add: app_def)
  have "status (fst (app e AdminGetMessages s)) = 200 \<and>
      reply (fst (app e AdminGetMessages s)) =
        Render ''admin/admin-messages''
          [(''layout'', VBool False), (''user'', session_user s),
           (''messages'', VMessages (newest_first m_created_at (contact_messages (db s))))] \<and>
      issued (db (snd (app e AdminGetMessages s))) =
        issued (db s) @ [(''SELECT * FROM contact_messages ORDER BY created_at DESC'', [])]"
    if "admin_session s" and "\<not> rejects_next (db s)"
    using that
    by (auto simp: app_simps isAdmin_def admin_session_def admin_messages_get_def
        q_all_messages_accepted session_user_def split: option.splits)
  with eq show ?thesis
    by (simp add: newest_first_descending)
qed

theorem admin_message_routes_equal_witness:
  "admin_session as_admin \<and> \<not> rejects_next (db as_admin) \<and>
   app env0 AdminGetMessages as_admin = app env0 AdminGetContactMessages as_admin \<and>
   reply (fst (app env0 AdminGetMessages as_admin)) =
     Render ''admin/admin-messages''
       [(''layout'', VBool False), (''user'', session_user as_admin),
        (''messages'', VMessages (newest_first m_created_at (contact_messages (db as_admin))))] \<and>
   newest_first m_created_at (contact_messages (db as_admin)) = contact_messages db0"
proof -
  have h1: "admin_session as_admin" by code_simp
  have h2: "\<not> rejects_next (db as_admin)" by code_simp
  have h3: "newest_first m_created_at (contact_messages (db as_admin)) = contact_messages db0"
    by code_simp
  note t = admin_message_routes_equal [of env0 as_admin]
  from t have "app env0 AdminGetMessages = app env0 AdminGetContactMessages"
    by (rule conjunct1)
  then have eq: "app env0 AdminGetMessages as_admin = app env0 AdminGetContactMessages as_admin"
    by (rule fun_cong)
  from t h1 h2 eq h3 show ?thesis by blast
qed

section \<open>The authorization gates\<close>

lemma checkAuth_blocks:
  "s_user (sess s) = None \<Longrightarrow>
   checkAuth h s = ((302, Redirect ''/login''), flash_err ''Please login to continue'' s)"
  by (simp add: checkAuth_def redirect_def)

lemma isAdmin_blocks:
  "\<not> admin_session s \<Longrightarrow> isAdmin h s = ((302, Redirect ''/admin/login''), s)"
  by (simp add: isAdmin_def admin_session_def redirect_def split: option.splits)

lemma route_needs_user:
  "needs_user r \<Longrightarrow> \<exists>h. route e r = checkAuth h"
  by (cases r) auto

lemma route_needs_admin:
  "needs_admin r \<Longrightarrow> \<exists>h. route e r = isAdmin h"
  by (cases r) auto

lemma drained_session [simp]:
  "s_user (sess (snd (global_locals s))) = s_user (sess s)"
  "db (snd (global_locals s)) = db s"
  "flash_error (sess (snd (global_locals s))) = []"
  "flash_success (sess (snd (global_locals s))) = []"
  "admin_session (snd (global_locals s)) = admin_session s"
  by (simp_all add: global_locals_def admin_session_def)

lemma app_route:
  "app e r s = (\<lparr>status = fst (fst (route e r (snd (global_locals s)))),
                 reply = snd (fst (route e r (snd (global_locals s)))),
                 locals = fst (global_locals s)\<rparr>,
                snd (route e r (snd (global_locals s))))"
  by (simp add: app_def split: prod.splits)

text \<open>
  C9. A request to a route behind \<open>checkAuth\<close> with no identity bound to the session is
  answered by a redirect to /login; the only change beyond the draining of the flash
  queues, which every request does, is the error flash "Please login to continue". A
  request to a route behind \<open>isAdmin\<close> whose session has no identity, or one whose role
  is not "admin", is answered by a redirect to /admin/login with nothing enqueued. In both
  cases the database is untouched: no statement is issued and no table changes.
\<close>

theorem gates_short_circuit:
  "(needs_user r \<and> s_user (sess s) = None \<longrightarrow>
      status (fst (app e r s)) = 302 \<and>
      reply (fst (app e r s)) = Redirect ''/login'' \<and>
      snd (app e r s) = flash_err ''Please login to continue'' (snd (global_locals s)) \<and>
      flash_error (sess (snd (app e r s))) = [''Please login to continue''] \<and>
      db (snd (app e r s)) = db s) \<and>
   (needs_admin r \<and> \<not> admin_session s \<longrightarrow>
      status (fst (app e r s)) = 302 \<and>
      reply (fst (app e r s)) = Redirect ''/admin/login'' \<and>
      snd (app e r s) = snd (global_locals s) \<and>
      flash_error (sess (snd (app e r s))) = [] \<and>
      flash_success (sess (snd (app e r s))) = [] \<and>
      db (snd (app e r s)) = db s)"
proof (intro conjI impI)
  assume a: "needs_user r \<and> s_user (sess s) = None"
  then obtain h where h: "route e r = checkAuth h"
    using route_needs_user by blast
  from a have "s_user (sess (snd (global_locals s))) = None" by simp
  then have out: "route e r (snd (global_locals s)) =
      ((302, Redirect ''/login''), flash_err ''Please login to continue'' (snd (global_locals s)))"
    unfolding h by (rule checkAuth_blocks)
  show "status (fst (app e r s)) = 302"
    and "reply (fst (app e r s)) = Redirect ''/login''"
    and "snd (app e r s) = flash_err ''Please login to continue'' (snd (global_locals s))"
    and "flash_error (sess (snd (app e r s))) = [''Please login to continue'']"
    and "db (snd (app e r s)) = db s"
    by (simp_all add: app_route out flash_err_def)
next
  assume a: "needs_admin r \<and> \<not> admin_session s"
  then obtain h where h: "route e r = isAdmin h"
    using route_needs_admin by blast
  from a have "\<not> admin_session (snd (global_locals s))" by simp
  then have out: "route e r (snd (global_locals s)) =
      ((302, Redirect ''/admin/login''), snd (global_locals s))"
    unfolding h by (rule isAdmin_blocks)
  show "status (fst (app e r s)) = 302"
    and "reply (fst (app e r s)) = Redirect ''/admin/login''"
    and "snd (app e r s) = snd (global_locals s)"
    and "flash_error (sess (snd (app e r s))) = []"
    and "flash_success (sess (snd (app e r s))) = []"
    and "db (snd (app e r s)) = db s"
    by (simp_all add: app_route out)
qed

theorem gates_short_circuit_witness:
  "needs_user (PostDelete ''7'') \<and> s_user (sess anonymous) = None \<and>
   reply (fst (app env0 (PostDelete ''7'') anonymous)) = Redirect ''/login'' \<and>
   flash_error (sess (snd (app env0 (PostDelete ''7'') anonymous))) = [''Please login to continue''] \<and>
   db (snd (app env0 (PostDelete ''7'') anonymous)) = db anonymous \<and>
   needs_admin (AdminPostUsersDelete ''2'') \<and> \<not> admin_session as_bob \<and>
   reply (fst (app env0 (AdminPostUsersDelete ''2'') as_bob)) = Redirect ''/admin/login'' \<and>
   flash_error (sess (snd (app env0 (AdminPostUsersDelete ''2'') as_bob))) = [] \<and>
   db (snd (app env0 (AdminPostUsersDelete ''2'') as_bob)) = db as_bob"
proof -
  have h1: "needs_user (PostDelete ''7'') \<and> s_user (sess anonymous) = None" by code_simp
  have h2: "needs_admin (AdminPostUsersDelete ''2'') \<and> \<not> admin_session as_bob" by code_simp
  from gates_short_circuit [of "PostDelete ''7''" anonymous env0]
    gates_short_circuit [of "AdminPostUsersDelete ''2''" as_bob env0] h1 h2
  show ?thesis by blast
qed

section \<open>Approving a blog\<close>

lemma q_approve_blog_accepted:
  "\<not> rejects_next d \<Longrightarrow> id_in e t = Some k \<Longrightarrow>
   q_approve_blog e t d =
     (Inr (), (sent (''UPDATE blogs SET status='' @ lit ''approved'' @ '' WHERE id=$1'') [Some t] d)
                \<lparr>blogs := approve_rows k (blogs d)\<rparr>)"
  by (simp add: q_approve_blog_def pool_query_accepted with_id_def approve_rows_def)

lemma approve_rows_twice: "approve_rows k (approve_rows k bs) = approve_rows k bs"
  unfolding approve_rows_def by (induction bs) simp_all

lemma approve_rows_all:
  "list_all (\<lambda>b. b_id b = k \<longrightarrow> b_status b = Some ''approved'') (approve_rows k bs)"
  by (induction bs) (simp_all add: approve_rows_def)

lemma approve_rows_approved:
  "\<forall>b\<in>set (approve_rows k bs). b_id b = k \<longrightarrow> b_status b = Some ''approved''"
  using approve_rows_all [of k bs] by (simp only: list_all_iff)

lemma approve_rows_already:
  "\<forall>b\<in>set bs. b_id b = k \<longrightarrow> b_status b = Some ''approved'' \<Longrightarrow> approve_rows k bs = bs"
  unfolding approve_rows_def by (induction bs) simp_all

lemma approve_once:
  assumes "admin_session s" and "id_in e i = Some k" and "\<not> rejects_next (db s)"
  shows "fst (app e (AdminPostBlogsApprove i) s) =
           \<lparr>status = 302, reply = Redirect ''/admin/blogs'', locals = fst (global_locals s)\<rparr>"
    and "blogs (db (snd (app e (AdminPostBlogsApprove i) s))) = approve_rows k (blogs (db s))"
    and "users (db (snd (app e (AdminPostBlogsApprove i) s))) = users (db s)"
    and "contact_messages (db (snd (app e (AdminPostBlogsApprove i) s))) = contact_messages (db s)"
    and "admin_session (snd (app e (AdminPostBlogsApprove i) s))"
  using assms
  by (auto simp: app_route isAdmin_def admin_session_def admin_blogs_approve_def
      q_approve_blog_accepted redirect_def split: option.splits)

text \<open>
  C4. An admin posts /admin/blogs/approve/:id twice with an id that the database reads as
  \<open>k\<close>, and the database rejects neither UPDATE. Both responses are the redirect to
  /admin/blogs; after the first request and after the second, every blog with id \<open>k\<close>
  has status "approved"; the second request leaves all three tables as the first left
  them; and when the blogs with id \<open>k\<close> were approved already, the first request
  changes no table either.
\<close>

theorem approve_is_idempotent:
  assumes "admin_session s" and "id_in e i = Some k"
    and "\<not> rejects_next (db s)"
    and "\<not> rejects_next (db (snd (app e (AdminPostBlogsApprove i) s)))"
    and "s1 = snd (app e (AdminPostBlogsApprove i) s)"
    and "s2 = snd (app e (AdminPostBlogsApprove i) s1)"
  shows "status (fst (app e (AdminPostBlogsApprove i) s)) = 302 \<and>
         reply (fst (app e (AdminPostBlogsApprove i) s)) = Redirect ''/admin/blogs'' \<and>
         status (fst (app e (AdminPostBlogsApprove i) s1)) = 302 \<and>
         reply (fst (app e (AdminPostBlogsApprove i) s1)) = Redirect ''/admin/blogs'' \<and>
         (\<forall>b\<in>set (blogs (db s1)). b_id b = k \<longrightarrow> b_status b = Some ''approved'') \<and>
         (\<forall>b\<in>set (blogs (db s2)). b_id b = k \<longrightarrow> b_status b = Some ''approved'') \<and>
         blogs (db s1) = approve_rows k (blogs (db s)) \<and>
         same_tables (db s1) (db s2) \<and>
         ((\<forall>b\<in>set (blogs (db s)). b_id b = k \<longrightarrow> b_status b = Some ''approved'') \<longrightarrow>
            same_tables (db s) (db s1))"
proof -
  note first = approve_once [OF assms(1,2,3)]
  have adm1: "admin_session s1" and ok1: "\<not> rejects_next (db s1)"
    using first(5) assms(4) by (simp_all add: assms(5))
  note second = approve_once [OF adm1 assms(2) ok1]
  have b1: "blogs (db s1) = approve_rows k (blogs (db s))"
    using first(2) by (simp add: assms(5))
  have b2: "blogs (db s2) = blogs (db s1)"
    using second(2) by (simp add: assms(6) b1 approve_rows_twice)
  have t12: "same_tables (db s1) (db s2)"
    using b2 second(3,4) by (simp add: same_tables_def assms(6))
  have t01: "same_tables (db s) (db s1)"
    if "\<forall>b\<in>set (blogs (db s)). b_id b = k \<longrightarrow> b_status b = Some ''approved''"
    using b1 first(3,4) approve_rows_already [OF that] by (simp add: same_tables_def assms(5))
  have a1: "\<forall>b\<in>set (blogs (db s1)). b_id b = k \<longrightarrow> b_status b = Some ''approved''"
    unfolding b1 by (rule approve_rows_approved)
  then have a2: "\<forall>b\<in>set (blogs (db s2)). b_id b = k \<longrightarrow> b_status b = Some ''approved''"
    by (simp add: b2)
  show ?thesis
    using first(1) second(1) a1 a2 b1 t12 t01 by simp
qed


theorem approve_is_idempotent_witness:
  "admin_session as_admin \<and> id_in env0 ''7'' = Some 7 \<and> \<not> rejects_next (db as_admin) \<and>
   \<not> rejects_next (db (snd (app env0 (AdminPostBlogsApprove ''7'') as_admin))) \<and>
   b_status blog7 = Some ''pending'' \<and>
   approve_rows 7 (blogs (db as_admin)) = [blog7\<lparr>b_status := Some ''approved''\<rparr>, blog12] \<and>
   reply (fst (app env0 (AdminPostBlogsApprove ''7'') as_admin)) = Redirect ''/admin/blogs'' \<and>
   reply (fst (app env0 (AdminPostBlogsApprove ''7'')
                 (snd (app env0 (AdminPostBlogsApprove ''7'') as_admin)))) = Redirect ''/admin/blogs'' \<and>
   blogs (db (snd (app env0 (AdminPostBlogsApprove ''7'') as_admin))) = approve_rows 7 (blogs (db as_admin)) \<and>
   same_tables (db (snd (app env0 (AdminPostBlogsApprove ''7'') as_admin)))
     (db (snd (app env0 (AdminPostBlogsApprove ''7'')
                 (snd (app env0 (AdminPostBlogsApprove ''7'') as_admin)))))"
proof -
  have h1: "admin_session as_admin" by code_simp
  have h2: "id_in env0 ''7'' = Some 7" by code_simp
  have h3: "\<not> rejects_next (db as_admin)" by code_simp
  have h4: "\<not> rejects_next (db (snd (app env0 (AdminPostBlogsApprove ''7'') as_admin)))" by code_simp
  have h5: "b_status blog7 = Some ''pending''" by code_simp
  have h6: "approve_rows 7 (blogs (db as_admin)) = [blog7\<lparr>b_status := Some ''approved''\<rparr>, blog12]"
    by code_simp
  note t = approve_is_idempotent [OF h1 h2 h3 h4 refl refl]
  from t have c1: "reply (fst (app env0 (AdminPostBlogsApprove ''7'') as_admin)) = Redirect ''/admin/blogs''"
    by (elim conjE)
  from t have c2: "reply (fst (app env0 (AdminPostBlogsApprove ''7'')
                 (snd (app env0 (AdminPostBlogsApprove ''7'') as_admin)))) = Redirect ''/admin/blogs''"
    by (elim conjE)
  from t have c3: "blogs (db (snd (app env0 (AdminPostBlogsApprove ''7'') as_admin))) =
      approve_rows 7 (blogs (db as_admin))"
    by (elim conjE)
  from t have c4: "same_tables (db (snd (app env0 (AdminPostBlogsApprove ''7'') as_admin)))
     (db (snd (app env0 (AdminPostBlogsApprove ''7'')
                 (snd (app env0 (AdminPostBlogsApprove ''7'') as_admin)))))"
    by (elim conjE)
  show ?thesis
    by (intro conjI h1 h2 h3 h4 h5 h6 c1 c2 c3 c4)
qed

section \<open>Deleting users\<close>

lemma user_ids_sent [simp]: "user_ids (sent sql ps d) = user_ids d"
  by (simp add: user_ids_def)

lemma pool_query_keeps:
  assumes "\<And>d0 r d1. run d0 = Inr (r, d1) \<Longrightarrow> user_ids d0 \<subseteq> user_ids d1"
  shows "keeps_users (pool_query sql ps run)"
  unfolding keeps_users_def
proof
  fix d
  show "user_ids d \<subseteq> user_ids (snd (pool_query sql ps run d))"
  proof (cases "rejects_next d")
    case True
    then obtain m where "pool_query sql ps run d = (Inl m, sent sql ps d)"
      using pool_query_rejected by blast
    then show ?thesis by simp
  next
    case False
    show ?thesis
    proof (cases "run (sent sql ps d)")
      case (Inl m)
      with False show ?thesis by (simp add: pool_query_accepted)
    next
      case (Inr p)
      obtain r d1 where p: "p = (r, d1)" by (cases p)
      with Inr have "user_ids (sent sql ps d) \<subseteq> user_ids d1"
        using assms [of "sent sql ps d" r d1] by simp
      with False Inr p show ?thesis
        by (simp add: pool_query_accepted)
    qed
  qed
qed

lemma keeps_usersD:
  "keeps_users q \<Longrightarrow> q d = (res, d') \<Longrightarrow> user_ids d \<subseteq> user_ids d'"
  unfolding keeps_users_def by (metis snd_conv)

lemma user_ids_insert:
  "user_ids (d\<lparr>users := users d @ us\<rparr>) = user_ids d \<union> set (map u_id us)"
  by (simp add: user_ids_def)

lemma user_ids_map:
  "(\<And>u. u_id (f u) = u_id u) \<Longrightarrow> user_ids (d\<lparr>users := map f (users d)\<rparr>) = user_ids d"
  by (simp add: user_ids_def)

lemma user_ids_other [simp]:
  "user_ids (d\<lparr>blogs := bs\<rparr>) = user_ids d"
  "user_ids (d\<lparr>contact_messages := ms\<rparr>) = user_ids d"
  "user_ids (d\<lparr>message_seq := n\<rparr>) = user_ids d"
  "user_ids (d\<lparr>blog_seq := n\<rparr>) = user_ids d"
  "user_ids (d\<lparr>user_seq := n\<rparr>) = user_ids d"
  "user_ids (d\<lparr>clock := n\<rparr>) = user_ids d"
  by (simp_all add: user_ids_def)

lemma statements_keep_users:
  "keeps_users q_home"
  "keeps_users (q_user_taken em un)"
  "keeps_users (q_insert_user un em pw)"
  "keeps_users (q_users_by_email em)"
  "keeps_users (q_set_password_by_email pw em)"
  "keeps_users (q_insert_contact n em msg)"
  "keeps_users (q_blogs_of uid)"
  "keeps_users (q_insert_blog e uid t c)"
  "keeps_users (q_view e i)"
  "keeps_users (q_own_blog e i uid)"
  "keeps_users (q_update_own_blog e t c i uid)"
  "keeps_users (q_delete_own_blog e i uid)"
  "keeps_users (q_admins_by_email oem)"
  "keeps_users q_all_users"
  "keeps_users q_all_blogs"
  "keeps_users q_all_messages"
  "keeps_users (q_user_by_id e i)"
  "keeps_users (q_set_role e r i)"
  "keeps_users (q_set_password_by_id e pw i)"
  "keeps_users (q_delete_blog e i)"
  "keeps_users (q_approve_blog e i)"
  "keeps_users (q_blog_by_id e i)"
  "keeps_users (q_update_blog e ot oc i)"
  unfolding q_home_def q_user_taken_def q_insert_user_def q_users_by_email_def
    q_set_password_by_email_def q_insert_contact_def q_blogs_of_def q_insert_blog_def
    q_view_def q_own_blog_def q_update_own_blog_def q_delete_own_blog_def
    q_admins_by_email_def q_all_users_def q_all_blogs_def q_all_messages_def
    q_user_by_id_def q_set_role_def q_set_password_by_id_def q_delete_blog_def
    q_approve_blog_def q_blog_by_id_def q_update_blog_def
  by (rule pool_query_keeps;
      auto simp: with_id_def user_ids_map user_ids_insert split: option.splits if_splits)+


lemmas q_keeps = statements_keep_users [THEN keeps_usersD]

lemmas handler_splits = prod.splits sum.splits list.splits option.splits if_splits

lemma user_ids_flash [simp]:
  "user_ids (db (flash_err m s)) = user_ids (db s)"
  "user_ids (db (flash_ok m s)) = user_ids (db s)"
  by (simp_all add: flash_err_def flash_ok_def)

lemma public_handlers_keep_users:
  "handler_keeps_users home_get"
  "handler_keeps_users signup_get"
  "handler_keeps_users (signup_post e body)"
  "handler_keeps_users login_get"
  "handler_keeps_users (login_post e body)"
  "handler_keeps_users logout_get"
  "handler_keeps_users forgot_password_get"
  "handler_keeps_users (forgot_password_post e body)"
  "handler_keeps_users (contact_post body)"
  "handler_keeps_users dashboard_get"
  "handler_keeps_users create_get"
  "handler_keeps_users (create_post e body)"
  "handler_keeps_users (view_get e i)"
  "handler_keeps_users (edit_get e i)"
  "handler_keeps_users (edit_post e i body)"
  "handler_keeps_users (delete_post e i)"
  "handler_keeps_users contact_get"
  "handler_keeps_users about_get"
  "handler_keeps_users not_found"
  unfolding handler_keeps_users_def home_get_def signup_get_def signup_post_def login_get_def
    login_post_def logout_get_def forgot_password_get_def forgot_password_post_def
    contact_post_def dashboard_get_def create_get_def create_post_def view_get_def
    edit_get_def edit_post_def delete_post_def contact_get_def about_get_def not_found_def
  by (auto simp: Let_def split: handler_splits dest!: q_keeps)

lemma admin_handlers_keep_users:
  "handler_keeps_users admin_login_get"
  "handler_keeps_users (admin_login_post e body)"
  "handler_keeps_users admin_logout_get"
  "handler_keeps_users admin_dashboard_get"
  "handler_keeps_users admin_messages_get"
  "handler_keeps_users admin_users_get"
  "handler_keeps_users (admin_users_promote e i)"
  "handler_keeps_users (admin_users_demote e i)"
  "handler_keeps_users (admin_users_reset_password e i)"
  "handler_keeps_users admin_blogs_get"
  "handler_keeps_users (admin_blogs_delete e i)"
  "handler_keeps_users (admin_blogs_approve e i)"
  "handler_keeps_users (admin_blogs_edit_get e i)"
  "handler_keeps_users (admin_blogs_edit_post e i body)"
  "handler_keeps_users admin_contact_messages_get"
  unfolding handler_keeps_users_def admin_login_get_def admin_login_post_def admin_logout_get_def
    admin_dashboard_get_def admin_messages_get_def admin_users_get_def admin_users_promote_def
    admin_users_demote_def admin_users_reset_password_def admin_blogs_get_def
    admin_blogs_delete_def admin_blogs_approve_def admin_blogs_edit_get_def
    admin_blogs_edit_post_def admin_contact_messages_get_def
  by (auto simp: Let_def split: handler_splits dest!: q_keeps)

lemma gates_keep_users:
  "handler_keeps_users h \<Longrightarrow> handler_keeps_users (checkAuth h)"
  "handler_keeps_users h \<Longrightarrow> handler_keeps_users (isAdmin h)"
  by (auto simp: handler_keeps_users_def checkAuth_def isAdmin_def split: option.splits)

lemma route_keeps_users:
  "(\<And>i. r \<noteq> AdminPostUsersDelete i) \<Longrightarrow> handler_keeps_users (route e r)"
  by (cases r) (auto simp: public_handlers_keep_users admin_handlers_keep_users gates_keep_users)


lemma only_row:
  "distinct (map f xs) \<Longrightarrow> u \<in> set xs \<Longrightarrow> filter (\<lambda>x. f x = f u) xs = [u]"
proof (induction xs)
  case Nil
  then show ?case by simp
next
  case (Cons a xs)
  show ?case
  proof (cases "a = u")
    case True
    from Cons.prems(1) have "f u \<notin> f ` set xs"
      using True by simp
    then have "filter (\<lambda>x. f x = f u) xs = []"
      by (force simp: filter_empty_conv image_iff)
    with True show ?thesis by simp
  next
    case False
    with Cons.prems have "u \<in> set xs" and "f a \<noteq> f u"
      by auto
    with Cons show ?thesis by simp
  qed
qed

lemma q_user_by_id_rejected:
  "rejects_next d \<Longrightarrow>
   \<exists>m. q_user_by_id e t d = (Inl m, sent ''SELECT * FROM users WHERE id=$1'' [Some t] d)"
  unfolding q_user_by_id_def by (rule pool_query_rejected)

lemma q_user_by_id_accepted:
  "\<not> rejects_next d \<Longrightarrow> id_in e t = Some k \<Longrightarrow>
   q_user_by_id e t d =
     (Inr (filter (\<lambda>u. u_id u = k) (users d)), sent ''SELECT * FROM users WHERE id=$1'' [Some t] d)"
  by (simp add: q_user_by_id_def pool_query_accepted with_id_def)

lemma admin_delete_of_admin:
  assumes "distinct (map u_id (users (db s)))" and "u \<in> set (users (db s))"
    and "u_role u = ''admin''" and "id_in e i = Some (u_id u)"
  shows "same_tables (db s) (db (snd (admin_users_delete e i s)))"
    and "\<not> rejects_next (db s) \<Longrightarrow>
         fst (admin_users_delete e i s) = (403, Send ''Cannot delete another admin'')"
proof -
  have rows: "filter (\<lambda>x. u_id x = u_id u) (users (db s)) = [u]"
    using assms(1,2) by (rule only_row)
  show "same_tables (db s) (db (snd (admin_users_delete e i s)))"
  proof (cases "rejects_next (db s)")
    case True
    then obtain m where
      "q_user_by_id e i (db s) = (Inl m, sent ''SELECT * FROM users WHERE id=$1'' [Some i] (db s))"
      using q_user_by_id_rejected by blast
    then show ?thesis by (simp add: admin_users_delete_def)
  next
    case False
    then show ?thesis
      using assms(3,4) rows
      by (simp add: admin_users_delete_def q_user_by_id_accepted send_def)
  qed
  show "fst (admin_users_delete e i s) = (403, Send ''Cannot delete another admin'')"
    if "\<not> rejects_next (db s)"
    using that assms(3,4) rows
    by (simp add: admin_users_delete_def q_user_by_id_accepted send_def)
qed

lemma q_delete_user_users:
  "q_delete_user e i d = (res, d') \<Longrightarrow>
   users d' = users d \<or>
   (\<exists>k. id_in e i = Some k \<and> users d' = filter (\<lambda>u. u_id u \<noteq> k) (users d))"
  by (auto simp: q_delete_user_def pool_query_def Let_def
      split: list.splits option.splits if_splits)

lemma admin_users_delete_users:
  "users (db (snd (admin_users_delete e i s))) = users (db s) \<or>
   (\<exists>k. id_in e i = Some k \<and>
        users (db (snd (admin_users_delete e i s))) = filter (\<lambda>u. u_id u \<noteq> k) (users (db s)))"
proof (cases "q_user_by_id e i (db s)")
  case (Pair res d)
  have d: "users d = users (db s)"
    using Pair
    by (auto simp: q_user_by_id_def pool_query_def Let_def with_id_def
        split: list.splits option.splits)
  show ?thesis
  proof (cases "q_delete_user e i d")
    case inner: (Pair res' d')
    from q_delete_user_users [OF inner] d Pair inner show ?thesis
      by (auto simp: admin_users_delete_def split: sum.splits list.splits)
  qed
qed

lemma isAdmin_cases:
  "isAdmin h s = h s \<or> isAdmin h s = ((302, Redirect ''/admin/login''), s)"
  by (simp add: isAdmin_def redirect_def split: option.splits)

lemma isAdmin_passes: "admin_session s \<Longrightarrow> isAdmin h s = h s"
  by (simp add: isAdmin_def admin_session_def split: option.splits)

text \<open>
  C7. Let the ids of the users table be distinct and let \<open>u\<close> be a row whose role is
  "admin". Whatever the request, the id of \<open>u\<close> is still in the table afterwards. Every
  request other than POST /admin/users/delete/:id keeps all user ids. A POST
  /admin/users/delete/:id whose id is the id of \<open>u\<close> changes no table, and when it comes
  from an admin session and the database answers the lookup, the response is 403 with
  the text "Cannot delete another admin".
\<close>

theorem admins_are_never_deleted:
  assumes "distinct (map u_id (users (db s)))" and "u \<in> set (users (db s))"
    and "u_role u = ''admin''"
  shows "u_id u \<in> user_ids (db (snd (app e r s))) \<and>
         ((\<forall>i. r \<noteq> AdminPostUsersDelete i) \<longrightarrow>
            user_ids (db s) \<subseteq> user_ids (db (snd (app e r s)))) \<and>
         (id_in e i = Some (u_id u) \<longrightarrow>
            same_tables (db s) (db (snd (app e (AdminPostUsersDelete i) s)))) \<and>
         (id_in e i = Some (u_id u) \<and> admin_session s \<and> \<not> rejects_next (db s) \<longrightarrow>
            status (fst (app e (AdminPostUsersDelete i) s)) = 403 \<and>
            reply (fst (app e (AdminPostUsersDelete i) s)) = Send ''Cannot delete another admin'')"
proof -
  let ?s1 = "snd (global_locals s)"
  have db1: "db ?s1 = db s" by simp
  have mine: "u_id u \<in> user_ids (db s)"
    using assms(2) by (simp add: user_ids_def)
  have others: "user_ids (db s) \<subseteq> user_ids (db (snd (app e r s)))"
    if "\<forall>i. r \<noteq> AdminPostUsersDelete i"
  proof -
    from that have "handler_keeps_users (route e r)"
      by (intro route_keeps_users) simp
    then have "user_ids (db ?s1) \<subseteq> user_ids (db (snd (route e r ?s1)))"
      by (simp only: handler_keeps_users_def)
    then show ?thesis by (simp add: app_route)
  qed
  have target: "same_tables (db s) (db (snd (app e (AdminPostUsersDelete j) s)))"
    if "id_in e j = Some (u_id u)" for j
  proof -
    have "same_tables (db ?s1) (db (snd (admin_users_delete e j ?s1)))"
      using assms that by (intro admin_delete_of_admin(1) [of ?s1 u]) simp_all
    then show ?thesis
      using isAdmin_cases [of "admin_users_delete e j" ?s1]
      by (auto simp: app_route)
  qed
  have refused: "status (fst (app e (AdminPostUsersDelete j) s)) = 403 \<and>
      reply (fst (app e (AdminPostUsersDelete j) s)) = Send ''Cannot delete another admin''"
    if "id_in e j = Some (u_id u)" and "admin_session s" and "\<not> rejects_next (db s)" for j
  proof -
    have "fst (admin_users_delete e j ?s1) = (403, Send ''Cannot delete another admin'')"
      using assms that(1,3) by (intro admin_delete_of_admin(2) [of ?s1 u]) simp_all
    moreover have "isAdmin (admin_users_delete e j) ?s1 = admin_users_delete e j ?s1"
      using that(2) by (intro isAdmin_passes) simp
    ultimately show ?thesis by (simp add: app_route)
  qed
  have kept: "u_id u \<in> user_ids (db (snd (app e r s)))"
  proof (cases "\<exists>j. r = AdminPostUsersDelete j")
    case False
    with others mine show ?thesis by blast
  next
    case True
    then obtain j where r: "r = AdminPostUsersDelete j" by blast
    show ?thesis
    proof (cases "id_in e j = Some (u_id u)")
      case True
      from target [OF True] mine show ?thesis
        by (simp add: same_tables_def user_ids_def r)
    next
      case False
      have "users (db (snd (admin_users_delete e j ?s1))) = users (db s) \<or>
            (\<exists>k. id_in e j = Some k \<and>
               users (db (snd (admin_users_delete e j ?s1))) =
                 filter (\<lambda>u. u_id u \<noteq> k) (users (db s)))"
        using admin_users_delete_users [of e j ?s1] by (simp only: db1)
      with False assms(2) have "u \<in> set (users (db (snd (admin_users_delete e j ?s1))))"
        by auto
      then have "u_id u \<in> user_ids (db (snd (admin_users_delete e j ?s1)))"
        by (simp add: user_ids_def)
      with mine show ?thesis
        using isAdmin_cases [of "admin_users_delete e j" ?s1]
        by (auto simp: app_route r)
    qed
  qed
  from kept others target refused show ?thesis by blast
qed

theorem admins_are_never_deleted_witness:
  "distinct (map u_id (users (db as_admin))) \<and> alice \<in> set (users (db as_admin)) \<and>
   u_role alice = ''admin'' \<and> id_in env0 ''1'' = Some (u_id alice) \<and>
   admin_session as_admin \<and> \<not> rejects_next (db as_admin) \<and>
   u_id alice \<in> user_ids (db (snd (app env0 (AdminPostUsersDelete ''1'') as_admin))) \<and>
   same_tables (db as_admin) (db (snd (app env0 (AdminPostUsersDelete ''1'') as_admin))) \<and>
   status (fst (app env0 (AdminPostUsersDelete ''1'') as_admin)) = 403 \<and>
   reply (fst (app env0 (AdminPostUsersDelete ''1'') as_admin)) = Send ''Cannot delete another admin'' \<and>
   user_ids (db as_admin) \<subseteq>
     user_ids (db (snd (app env0 (PostForgotPassword [(''email'', ''alice@example.com''), (''newPassword'', ''x'')]) as_admin)))"
proof -
  have h1: "distinct (map u_id (users (db as_admin)))" by code_simp
  have h2: "alice \<in> set (users (db as_admin))" by code_simp
  have h3: "u_role alice = ''admin''" by code_simp
  have h4: "id_in env0 ''1'' = Some (u_id alice)" by code_simp
  have h5: "admin_session as_admin" by code_simp
  have h6: "\<not> rejects_next (db as_admin)" by code_simp
  note t = admins_are_never_deleted [OF h1 h2 h3, of env0 "AdminPostUsersDelete ''1''" "''1''"]
  note t' = admins_are_never_deleted [OF h1 h2 h3, of env0
      "PostForgotPassword [(''email'', ''alice@example.com''), (''newPassword'', ''x'')]" "''1''"]
  from t have c1: "u_id alice \<in> user_ids (db (snd (app env0 (AdminPostUsersDelete ''1'') as_admin)))"
    by (elim conjE)
  from t h4 have c2: "same_tables (db as_admin) (db (snd (app env0 (AdminPostUsersDelete ''1'') as_admin)))"
    by blast
  from t h4 h5 h6 have c3: "status (fst (app env0 (AdminPostUsersDelete ''1'') as_admin)) = 403"
    and c4: "reply (fst (app env0 (AdminPostUsersDelete ''1'') as_admin)) = Send ''Cannot delete another admin''"
    by blast+
  from t' have c5: "user_ids (db as_admin) \<subseteq>
     user_ids (db (snd (app env0 (PostForgotPassword [(''email'', ''alice@example.com''), (''newPassword'', ''x'')]) as_admin)))"
    by blast
  show ?thesis
    by (intro conjI h1 h2 h3 h4 h5 h6 c1 c2 c3 c4 c5)
qed

section \<open>Who can enter the admin console\<close>

lemma admin_session_flash [simp]:
  "admin_session (flash_err m s) = admin_session s"
  "admin_session (flash_ok m s) = admin_session s"
  "admin_session (s\<lparr>db := d\<rparr>) = admin_session s"
  by (simp_all add: admin_session_def flash_err_def flash_ok_def)

lemma not_admin_without_role [simp]:
  "\<not> admin_session (s\<lparr>sess := (sess s)\<lparr>s_user := Some \<lparr>i_id = n, i_username = name, i_email = em, i_role = None\<rparr>\<rparr>\<rparr>)"
  "\<not> admin_session (s\<lparr>sess := empty_session\<rparr>)"
  "admin_session (s\<lparr>sess := (sess s)\<lparr>flash_error := xs, flash_success := ys\<rparr>\<rparr>) = admin_session s"
  by (simp_all add: admin_session_def empty_session_def)

lemma public_handlers_keep_rank:
  "keeps_rank home_get"
  "keeps_rank signup_get"
  "keeps_rank (signup_post e body)"
  "keeps_rank login_get"
  "keeps_rank (login_post e body)"
  "keeps_rank logout_get"
  "keeps_rank forgot_password_get"
  "keeps_rank (forgot_password_post e body)"
  "keeps_rank (contact_post body)"
  "keeps_rank dashboard_get"
  "keeps_rank create_get"
  "keeps_rank (create_post e body)"
  "keeps_rank (view_get e i)"
  "keeps_rank (edit_get e i)"
  "keeps_rank (edit_post e i body)"
  "keeps_rank (delete_post e i)"
  "keeps_rank contact_get"
  "keeps_rank about_get"
  "keeps_rank not_found"
  unfolding keeps_rank_def home_get_def signup_get_def signup_post_def login_get_def
    login_post_def logout_get_def forgot_password_get_def forgot_password_post_def
    contact_post_def dashboard_get_def create_get_def create_post_def view_get_def
    edit_get_def edit_post_def delete_post_def contact_get_def about_get_def not_found_def
  by (auto simp: Let_def admin_session_def empty_session_def flash_err_def flash_ok_def
      split: handler_splits)

lemma admin_handlers_keep_rank:
  "keeps_rank admin_login_get"
  "keeps_rank admin_logout_get"
  "keeps_rank admin_dashboard_get"
  "keeps_rank admin_messages_get"
  "keeps_rank admin_users_get"
  "keeps_rank (admin_users_delete e i)"
  "keeps_rank (admin_users_promote e i)"
  "keeps_rank (admin_users_demote e i)"
  "keeps_rank (admin_users_reset_password e i)"
  "keeps_rank admin_blogs_get"
  "keeps_rank (admin_blogs_delete e i)"
  "keeps_rank (admin_blogs_approve e i)"
  "keeps_rank (admin_blogs_edit_get e i)"
  "keeps_rank (admin_blogs_edit_post e i body)"
  "keeps_rank admin_contact_messages_get"
  unfolding keeps_rank_def admin_login_get_def admin_logout_get_def
    admin_dashboard_get_def admin_messages_get_def admin_users_get_def admin_users_delete_def
    admin_users_promote_def
    admin_users_demote_def admin_users_reset_password_def admin_blogs_get_def
    admin_blogs_delete_def admin_blogs_approve_def admin_blogs_edit_get_def
    admin_blogs_edit_post_def admin_contact_messages_get_def
  by (auto simp: Let_def admin_session_def empty_session_def split: handler_splits)

lemma gates_keep_rank:
  "keeps_rank h \<Longrightarrow> keeps_rank (checkAuth h)"
  "keeps_rank h \<Longrightarrow> keeps_rank (isAdmin h)"
  by (auto simp: keeps_rank_def checkAuth_def isAdmin_def split: option.splits)

lemma route_keeps_rank:
  "(\<And>b. r \<noteq> AdminPostLogin b) \<Longrightarrow> keeps_rank (route e r)"
  by (cases r) (auto simp: public_handlers_keep_rank admin_handlers_keep_rank gates_keep_rank)

lemma login_post_success:
  "snd (fst (login_post e body s)) = Redirect ''/'' \<Longrightarrow>
   \<exists>n name. s_user (sess (snd (login_post e body s))) =
      Some \<lparr>i_id = n, i_username = name, i_email = None, i_role = None\<rparr>"
  by (auto simp: login_post_def Let_def redirect_def server_error_def flash_err_def flash_ok_def
      split: handler_splits)

lemma signup_post_success:
  "snd (fst (signup_post e body s)) = Redirect ''/'' \<Longrightarrow>
   \<exists>n name. s_user (sess (snd (signup_post e body s))) =
      Some \<lparr>i_id = n, i_username = name, i_email = None, i_role = None\<rparr>"
  by (auto simp: signup_post_def Let_def redirect_def server_error_def flash_err_def flash_ok_def
      split: handler_splits)

text \<open>
  C10. When POST /login or POST /signup succeeds (it redirects to /), the identity it
  binds to the session is \<open>{id, username}\<close> with no email and no role, whatever the
  role of that user in the database; the session is then not an admin session, and every
  route behind \<open>isAdmin\<close> answers it with a redirect to /admin/login and leaves the
  database alone. The only request that turns a session that is not an admin session into
  one is POST /admin/login.
\<close>

theorem public_login_gives_no_admin_access:
  "((r = PostLogin body \<or> r = PostSignup body) \<and> reply (fst (app e r s)) = Redirect ''/'' \<longrightarrow>
      (\<exists>n name. s_user (sess (snd (app e r s))) =
          Some \<lparr>i_id = n, i_username = name, i_email = None, i_role = None\<rparr>) \<and>
      (needs_admin r' \<longrightarrow>
         status (fst (app e r' (snd (app e r s)))) = 302 \<and>
         reply (fst (app e r' (snd (app e r s)))) = Redirect ''/admin/login'' \<and>
         db (snd (app e r' (snd (app e r s)))) = db (snd (app e r s)))) \<and>
   (\<not> admin_session s \<and> admin_session (snd (app e r s)) \<longrightarrow> (\<exists>b. r = AdminPostLogin b))"
proof (intro conjI impI)
  assume a: "(r = PostLogin body \<or> r = PostSignup body) \<and> reply (fst (app e r s)) = Redirect ''/''"
  let ?s1 = "snd (global_locals s)"
  from a have ok: "snd (fst (route e r ?s1)) = Redirect ''/''"
    by (simp add: app_route)
  from a ok have "\<exists>n name. s_user (sess (snd (route e r ?s1))) =
      Some \<lparr>i_id = n, i_username = name, i_email = None, i_role = None\<rparr>"
    using login_post_success [of e body ?s1] signup_post_success [of e body ?s1] by auto
  then show bound: "\<exists>n name. s_user (sess (snd (app e r s))) =
      Some \<lparr>i_id = n, i_username = name, i_email = None, i_role = None\<rparr>"
    by (simp add: app_route)
  then have plain: "\<not> admin_session (snd (app e r s))"
    by (auto simp: admin_session_def)
  assume "needs_admin r'"
  then obtain h where h: "route e r' = isAdmin h"
    using route_needs_admin by blast
  define t where "t = snd (app e r s)"
  from plain have "\<not> admin_session (snd (global_locals t))" by (simp add: t_def)
  then have out: "route e r' (snd (global_locals t)) =
      ((302, Redirect ''/admin/login''), snd (global_locals t))"
    unfolding h by (rule isAdmin_blocks)
  have "status (fst (app e r' t)) = 302"
    and "reply (fst (app e r' t)) = Redirect ''/admin/login''"
    and "db (snd (app e r' t)) = db t"
    by (simp_all add: app_route out)
  then show "status (fst (app e r' (snd (app e r s)))) = 302"
    and "reply (fst (app e r' (snd (app e r s)))) = Redirect ''/admin/login''"
    and "db (snd (app e r' (snd (app e r s)))) = db (snd (app e r s))"
    by (simp_all only: t_def)
next
  assume a: "\<not> admin_session s \<and> admin_session (snd (app e r s))"
  show "\<exists>b. r = AdminPostLogin b"
  proof (rule ccontr)
    assume "\<not> (\<exists>b. r = AdminPostLogin b)"
    then have "keeps_rank (route e r)"
      by (intro route_keeps_rank) simp
    then have "admin_session (snd (route e r (snd (global_locals s)))) \<longrightarrow>
        admin_session (snd (global_locals s))"
      unfolding keeps_rank_def by blast
    with a show False by (simp add: app_route)
  qed
qed

theorem public_login_gives_no_admin_access_witness:
  "alice \<in> set (users (db anonymous)) \<and> u_role alice = ''admin'' \<and>
   reply (fst (app env0 (PostLogin [(''email'', ''alice@example.com''), (''password'', ''wonderland'')]) anonymous)) =
     Redirect ''/'' \<and>
   needs_admin AdminGetDashboard \<and>
   s_user (sess (snd (app env0 (PostLogin [(''email'', ''alice@example.com''), (''password'', ''wonderland'')]) anonymous))) =
     Some \<lparr>i_id = 1, i_username = ''alice'', i_email = None, i_role = None\<rparr> \<and>
   reply (fst (app env0 AdminGetDashboard
     (snd (app env0 (PostLogin [(''email'', ''alice@example.com''), (''password'', ''wonderland'')]) anonymous)))) =
     Redirect ''/admin/login'' \<and>
   \<not> admin_session anonymous \<and>
   admin_session (snd (app env0 (AdminPostLogin [(''email'', ''alice@example.com''), (''password'', ''wonderland'')]) anonymous)) \<and>
   (\<exists>b. AdminPostLogin [(''email'', ''alice@example.com''), (''password'', ''wonderland'')] = AdminPostLogin b)"
proof -
  let ?creds = "[(''email'', ''alice@example.com''), (''password'', ''wonderland'')]"
  have h1: "alice \<in> set (users (db anonymous))" by code_simp
  have h2: "u_role alice = ''admin''" by code_simp
  have h3: "reply (fst (app env0 (PostLogin ?creds) anonymous)) = Redirect ''/''" by code_simp
  have h4: "needs_admin AdminGetDashboard" by simp
  have h5: "s_user (sess (snd (app env0 (PostLogin ?creds) anonymous))) =
     Some \<lparr>i_id = 1, i_username = ''alice'', i_email = None, i_role = None\<rparr>" by code_simp
  have h6: "\<not> admin_session anonymous" by code_simp
  have h7: "admin_session (snd (app env0 (AdminPostLogin ?creds) anonymous))" by code_simp
  note t = public_login_gives_no_admin_access [of "PostLogin ?creds" ?creds env0 anonymous AdminGetDashboard]
  note t' = public_login_gives_no_admin_access [of "AdminPostLogin ?creds" ?creds env0 anonymous AdminGetDashboard]
  from t h3 h4 have c1: "reply (fst (app env0 AdminGetDashboard (snd (app env0 (PostLogin ?creds) anonymous)))) =
     Redirect ''/admin/login''"
    by blast
  from t' h6 h7 have c2: "\<exists>b. AdminPostLogin ?creds = AdminPostLogin b"
    by blast
  show ?thesis
    by (intro conjI h1 h2 h3 h4 h5 c1 h6 h7 c2)
qed

end
